theory Spec2Isabelle
  imports Complex_Main
begin

section \<open>Confidence regions of pyGSTi (objects/confidenceregion.py)\<close>

text \<open>
  The class \<open>ConfidenceRegion\<close> is embedded as functions over explicit data.  A float64
  number is a \<open>real\<close>: rounding is left out, and so are \<open>inf\<close> and \<open>nan\<close>, which numpy
  returns (with a warning, not an exception) for a division by zero; there the
  embedding has the value of the operation in HOL.  A one-dimensional numpy array is a
  list, a two-dimensional one is the list of its rows (so the number of columns of an
  array without rows is not kept).  Exceptions are values of the type \<open>error\<close>.  The collaborators that are not part of the file (numpy's
  and scipy's routines, the numerical minimizer, the classes \<open>GateSet\<close> and \<open>Gate\<close>) are
  parameters: records of functions that every definition below receives.
\<close>

subsection \<open>Data\<close>

type_synonym vec = "real list"
type_synonym mat = "real list list"
type_synonym addr = nat

datatype error =
    ValueError string
  | AssertionError
  | KeyError string
  | IndexError
  | LinAlgError
  | ZeroDivisionError

text \<open>The \<open>gates\<close> flag is a boolean or a list or tuple of gate labels (line 257).\<close>

datatype gates_flag = GatesBool bool | GatesList "string list" | GatesTuple "string list"

type_synonym flags = "gates_flag \<times> bool \<times> bool \<times> bool"

text \<open>
  What the constructor leaves behind besides its result: the warning of line 85 (with the
  level it reports) and every call of \<open>numpy.linalg.eigh\<close> (with its argument).
\<close>

datatype event = UserWarning real | EighCall mat

text \<open>The value of a user function: a Python float or an array of dtype float64 or complex128
  (its shape and its elements in row-major order).\<close>

datatype fval =
    PyFloat real
  | FloatArr "nat list" "real list"
  | ComplexArr "nat list" "complex list"

subsection \<open>Collaborators\<close>

text \<open>
  numpy, scipy and \<open>pygsti.optimize\<close>.  \<open>eigh\<close> may raise; the minimizer receives the
  objective function, which raises and leaves events like any other call, and the start
  vector, and returns \<open>minSol.x\<close> together with the events of its run.
\<close>

record providers =
  chi2_ppf :: "real \<Rightarrow> nat \<Rightarrow> real"
  norm_ppf :: "real \<Rightarrow> real"
  eigh :: "mat \<Rightarrow> error + (vec \<times> mat)"
  matrix_rank :: "mat \<Rightarrow> real \<Rightarrow> nat"
  P_RANK_TOL :: real
  minimize :: "(vec \<Rightarrow> (error + real) \<times> event list) \<Rightarrow> vec \<Rightarrow> (error + vec) \<times> event list"

text \<open>
  The classes \<open>GateSet\<close> (state \<open>'gs\<close>) and \<open>Gate\<close> (state \<open>'gate\<close>): the methods and
  attributes that confidenceregion.py uses.  A mutating method returns the new state of
  its receiver.  \<open>getitem\<close> is \<open>gateset[label]\<close>, \<open>gate_labels\<close> is the iteration over a
  gate set, \<open>get_nongauge_projector_mix\<close> is the call with a mixing matrix of line 483.
\<close>

record ('gs, 'gate) classes =
  get_nongauge_projector :: "'gs \<Rightarrow> flags \<Rightarrow> mat"
  get_nongauge_projector_mix :: "'gs \<Rightarrow> mat \<Rightarrow> flags \<Rightarrow> mat"
  get_vector_offsets :: "'gs \<Rightarrow> flags \<Rightarrow> (string \<rightharpoonup> nat \<times> nat)"
  num_params :: "'gs \<Rightarrow> flags \<Rightarrow> nat"
  gate_labels :: "'gs \<Rightarrow> string list"
  getitem :: "'gs \<Rightarrow> string \<rightharpoonup> mat"
  get_gate :: "'gs \<Rightarrow> string \<rightharpoonup> 'gate"
  to_vector :: "'gs \<Rightarrow> flags \<Rightarrow> vec"
  from_vector :: "'gs \<Rightarrow> vec \<Rightarrow> flags \<Rightarrow> 'gs"
  get_rhovecs :: "'gs \<Rightarrow> vec list"
  get_evecs :: "'gs \<Rightarrow> vec list"
  rhoVecs :: "'gs \<Rightarrow> vec list"
  EVecs :: "'gs \<Rightarrow> vec list"
  set_rhovec :: "'gs \<Rightarrow> vec \<Rightarrow> nat \<Rightarrow> 'gs"
  set_evec :: "'gs \<Rightarrow> vec \<Rightarrow> nat \<Rightarrow> 'gs"
  gate_num_params :: "'gate \<Rightarrow> bool \<Rightarrow> nat"
  gate_to_vector :: "'gate \<Rightarrow> bool \<Rightarrow> vec"
  gate_from_vector :: "'gate \<Rightarrow> vec \<Rightarrow> bool \<Rightarrow> 'gate"
  gate_matrix :: "'gate \<Rightarrow> mat"

text \<open>
  The objects live in a store: a gate set or a gate is known by its address, and the
  next free addresses are part of the store.
\<close>

record ('gs, 'gate) store =
  gateset_at :: "addr \<Rightarrow> 'gs"
  gate_at :: "addr \<Rightarrow> 'gate"
  next_gateset :: addr
  next_gate :: addr

text \<open>
  Modelled from the spec: the methods \<open>copy()\<close> of the classes \<open>GateSet\<close> and \<open>Gate\<close>, which
  are not part of the file.  The spec asks for "a deep-copyable gate object" and "a
  deep-copyable whole-gate-set object" that serve as "a private working copy": a copy
  is a new object, at the next free address, with the state of the original.
\<close>

definition copy_gateset :: "('gs, 'gate) store \<Rightarrow> 'gs \<Rightarrow> addr \<times> ('gs, 'gate) store" where
  "copy_gateset s gs =
     (next_gateset s,
      s\<lparr>gateset_at := (gateset_at s)(next_gateset s := gs), next_gateset := Suc (next_gateset s)\<rparr>)"

definition copy_gate :: "('gs, 'gate) store \<Rightarrow> 'gate \<Rightarrow> addr \<times> ('gs, 'gate) store" where
  "copy_gate s g =
     (next_gate s,
      s\<lparr>gate_at := (gate_at s)(next_gate s := g), next_gate := Suc (next_gate s)\<rparr>)"

text \<open>
  Modelled from the spec: the mutating methods (\<open>from_vector\<close>, \<open>set_rhovec\<close>, \<open>set_evec\<close>) of
  the same classes, "vector-valued get/set of its parameters": the object at the address
  of the receiver gets the new state, no other object changes.
\<close>

definition put_gateset :: "('gs, 'gate) store \<Rightarrow> addr \<Rightarrow> 'gs \<Rightarrow> ('gs, 'gate) store" where
  "put_gateset s a gs = s\<lparr>gateset_at := (gateset_at s)(a := gs)\<rparr>"

definition put_gate :: "('gs, 'gate) store \<Rightarrow> addr \<Rightarrow> 'gate \<Rightarrow> ('gs, 'gate) store" where
  "put_gate s a g = s\<lparr>gate_at := (gate_at s)(a := g)\<rparr>"

text \<open>The attributes of a \<open>ConfidenceRegion\<close>; \<open>gateset\<close> is a reference.\<close>

record region =
  nNonGaugeParams :: nat
  nGaugeParams :: int
  regionQuadcForm :: mat
  intervalScaling :: real
  invRegionQuadcForm :: mat
  U :: mat
  Udag :: mat
  gateset_paramFlags :: flags
  gateset_offsets :: "string \<rightharpoonup> nat \<times> nat"
  profLCI :: vec
  gateset :: addr
  level :: real

subsection \<open>numpy on lists\<close>

definition bind :: "error + 'a \<Rightarrow> ('a \<Rightarrow> error + 'b) \<Rightarrow> error + 'b" where
  "bind r f = (case r of Inl e \<Rightarrow> Inl e | Inr x \<Rightarrow> f x)"

text \<open>\<open>xs[k:]\<close>: a negative \<open>k\<close> counts from the end.\<close>

definition slice_from :: "'a list \<Rightarrow> int \<Rightarrow> 'a list" where
  "slice_from xs k = (if k < 0 then drop (nat (int (length xs) + k)) xs else drop (nat k) xs)"

text \<open>\<open>xs[start:end]\<close> for offsets that are natural numbers.\<close>

definition slice :: "'a list \<Rightarrow> nat \<Rightarrow> nat \<Rightarrow> 'a list" where
  "slice xs start end = drop start (take end xs)"

definition dot_vv :: "vec \<Rightarrow> vec \<Rightarrow> error + real" where
  "dot_vv u v =
     (if length u = length v then Inr (sum_list (map2 (*) u v))
      else Inl (ValueError ''shapes not aligned''))"

definition dot_mv :: "mat \<Rightarrow> vec \<Rightarrow> error + vec" where
  "dot_mv A v =
     (if list_all (\<lambda>row. length row = length v) A
      then Inr (map (\<lambda>row. sum_list (map2 (*) row v)) A)
      else Inl (ValueError ''shapes not aligned''))"

definition dot :: "mat \<Rightarrow> mat \<Rightarrow> error + mat" where
  "dot A B =
     (if list_all (\<lambda>row. length row = length B) A
      then Inr (map (\<lambda>row. map (\<lambda>col. sum_list (map2 (*) row col)) (transpose B)) A)
      else Inl (ValueError ''shapes not aligned''))"

definition diag :: "vec \<Rightarrow> mat" where
  "diag v = map (\<lambda>i. (replicate (length v) 0)[i := v ! i]) [0..<length v]"

definition divide_scalar :: "mat \<Rightarrow> real \<Rightarrow> mat" where
  "divide_scalar A c = map (map (\<lambda>x. x / c)) A"

text \<open>\<open>A[k,k]\<close>\<close>

definition diag_entry :: "mat \<Rightarrow> nat \<Rightarrow> error + real" where
  "diag_entry A k =
     (if k < length A \<and> k < length (A ! k) then Inr (A ! k ! k) else Inl IndexError)"

text \<open>\<open>numpy.isclose(a, b)\<close> with its default tolerances \<open>rtol = 1e-5\<close>, \<open>atol = 1e-8\<close>.\<close>

definition isclose :: "real \<Rightarrow> real \<Rightarrow> bool" where
  "isclose a b \<longleftrightarrow> \<bar>a - b\<bar> \<le> 1 / 10 ^ 8 + (1 / 10 ^ 5) * \<bar>b\<bar>"

text \<open>\<open>v.reshape((r, c))\<close> and \<open>numpy.zeros((r, c)).flatten()\<close>\<close>

definition reshape :: "vec \<Rightarrow> nat \<Rightarrow> nat \<Rightarrow> error + mat" where
  "reshape v r c =
     (if length v = r * c then Inr (map (\<lambda>i. take c (drop (i * c) v)) [0..<r])
      else Inl (ValueError ''cannot reshape array''))"

definition zeros_flat :: "nat \<Rightarrow> int \<Rightarrow> error + vec" where
  "zeros_flat r c =
     (if c < 0 then Inl (ValueError ''negative dimensions are not allowed'')
      else Inr (replicate (r * nat c) 0))"

text \<open>\<open>numpy.concatenate\<close> of one-dimensional arrays: it refuses the empty list.\<close>

definition concatenate :: "vec list \<Rightarrow> error + vec" where
  "concatenate vs =
     (if vs = [] then Inl (ValueError ''need at least one array to concatenate'')
      else Inr (concat vs))"

subsection \<open>The constructor\<close>

text \<open>Line 114: the indices of the eigenvalues, sorted (stably) by absolute value.\<close>

definition orderInds :: "vec \<Rightarrow> nat list" where
  "orderInds evals = map fst (sort_key (\<lambda>el. \<bar>snd el\<bar>) (enumerate 0 evals))"

text \<open>Lines 115 to 117.\<close>

definition invEvals :: "vec \<Rightarrow> int \<Rightarrow> vec" where
  "invEvals evals nGauge =
     foldl (\<lambda>inv i. inv[i := 1 / evals ! i])
       (replicate (length evals) 0) (slice_from (orderInds evals) nGauge)"

text \<open>Line 131.\<close>

fun profLCI_list :: "mat \<Rightarrow> nat list \<Rightarrow> error + vec" where
  "profLCI_list invQ [] = Inr []"
| "profLCI_list invQ (k # ks) =
     bind (diag_entry invQ k) (\<lambda>d.
     bind (profLCI_list invQ ks) (\<lambda>rest. Inr (sqrt \<bar>d\<bar> # rest)))"

text \<open>
  Lines 83 to 135: everything after the projection of the Hessian.  \<open>evs\<close> are the
  events so far.
\<close>

definition init_calibrate ::
  "providers \<Rightarrow> (string \<rightharpoonup> nat \<times> nat) \<Rightarrow> addr \<Rightarrow> mat \<Rightarrow> real \<Rightarrow> flags \<Rightarrow> nat \<Rightarrow> int \<Rightarrow>
   event list \<Rightarrow> (error + region) \<times> event list" where
  "init_calibrate prov offsets gateset_ref projected_hessian confidenceLevel fl nNonGauge nGauge evs =
     (if \<not> (confidenceLevel > 0 \<and> confidenceLevel < 100) then (Inl AssertionError, evs)
      else
        let evs1 = (if confidenceLevel < 1 then evs @ [UserWarning confidenceLevel] else evs);
            C1 = chi2_ppf prov (confidenceLevel / 100) 1;
            Ck = chi2_ppf prov (confidenceLevel / 100) nNonGauge;
            seScaleFctr = - norm_ppf prov ((1 - confidenceLevel / 100) / 2)
        in if \<not> isclose C1 (seScaleFctr ^ 2) then (Inl AssertionError, evs1)
        else
          let Q = divide_scalar projected_hessian C1;
              scaling = sqrt (Ck / C1);
              evs2 = evs1 @ [EighCall Q]
          in case eigh prov Q of
               Inl e \<Rightarrow> (Inl e, evs2)
             | Inr (evals, Umx) \<Rightarrow>
                 let Ud = transpose Umx;
                     invDiagQuadcForm = diag (invEvals evals nGauge)
                 in (bind (dot invDiagQuadcForm Ud) (\<lambda>DU.
                     bind (dot Umx DU) (\<lambda>invQ.
                     bind (profLCI_list invQ [0..<length evals]) (\<lambda>lci.
                       Inr \<lparr>nNonGaugeParams = nNonGauge, nGaugeParams = nGauge,
                            regionQuadcForm = Q, intervalScaling = scaling,
                            invRegionQuadcForm = invQ, U = Umx, Udag = Ud,
                            gateset_paramFlags = fl, gateset_offsets = offsets,
                            profLCI = lci, gateset = gateset_ref,
                            level = confidenceLevel\<rparr>))), evs2))"

text \<open>
  The constructor as \<open>objective_func\<close> calls it (line 486), with the literal \<open>"none"\<close>:
  lines 62 to 68 and the rest.
\<close>

definition init_none ::
  "('gs, 'gate) classes \<Rightarrow> providers \<Rightarrow> ('gs, 'gate) store \<Rightarrow> addr \<Rightarrow> mat \<Rightarrow> real \<Rightarrow> flags \<Rightarrow>
   (error + region) \<times> event list" where
  "init_none cls prov s gateset_ref hessian confidenceLevel fl =
     (let gs = gateset_at s gateset_ref;
          proj_non_gauge = get_nongauge_projector cls gs fl;
          nNonGauge = matrix_rank prov proj_non_gauge (P_RANK_TOL prov);
          nGauge = int (length hessian) - int nNonGauge
      in init_calibrate prov (get_vector_offsets cls gs fl) gateset_ref hessian
           confidenceLevel fl nNonGauge nGauge [])"

text \<open>\<open>get_profile_likelihood_confidence_intervals\<close> (lines 178 to 201).\<close>

definition get_profile_likelihood_confidence_intervals ::
  "region \<Rightarrow> string option \<Rightarrow> error + vec" where
  "get_profile_likelihood_confidence_intervals r label =
     (case label of
        None \<Rightarrow> Inr (profLCI r)
      | Some l \<Rightarrow>
          (case gateset_offsets r l of
             None \<Rightarrow> Inl (KeyError l)
           | Some (start, end) \<Rightarrow> Inr (slice (profLCI r) start end)))"

text \<open>\<open>_optProjectionForGateCIs\<close> (lines 469 to 506); its printing is left out.\<close>

fun gateCIs_list :: "region \<Rightarrow> string list \<Rightarrow> error + vec list" where
  "gateCIs_list ci [] = Inr []"
| "gateCIs_list ci (gl # gls) =
     bind (get_profile_likelihood_confidence_intervals ci (Some gl)) (\<lambda>v.
     bind (gateCIs_list ci gls) (\<lambda>rest. Inr (v # rest)))"

definition objective_func ::
  "('gs, 'gate) classes \<Rightarrow> providers \<Rightarrow> ('gs, 'gate) store \<Rightarrow> addr \<Rightarrow> mat \<Rightarrow> nat \<Rightarrow> nat \<Rightarrow>
   flags \<Rightarrow> real \<Rightarrow> vec \<Rightarrow> (error + real) \<times> event list" where
  "objective_func cls prov s gateset_ref base_hessian nNonGauge nGauge fl lvl vectorM =
     (let gs = gateset_at s gateset_ref in
      case bind (reshape vectorM nNonGauge nGauge) (\<lambda>matM.
             let proj_extra = get_nongauge_projector_mix cls gs matM fl in
             bind (dot base_hessian proj_extra) (\<lambda>HP. dot proj_extra HP)) of
        Inl e \<Rightarrow> (Inl e, [])
      | Inr projected_hessian_ex \<Rightarrow>
          (case init_none cls prov s gateset_ref projected_hessian_ex lvl fl of
             (Inl e, evs) \<Rightarrow> (Inl e, evs)
           | (Inr ci, evs) \<Rightarrow>
               (bind (gateCIs_list ci (gate_labels cls gs)) (\<lambda>cis.
                bind (concatenate cis) (\<lambda>gateCIs.
                  Inr (sqrt (sum_list (map (\<lambda>x. x ^ 2) gateCIs))))), evs)))"

text \<open>
  \<open>numpy.zeros\<close> of line 491 raises for a negative \<open>nGaugeParams\<close>, before the minimizer
  and with it \<open>objective_func\<close> run: where they run, \<open>nGaugeParams\<close> is a natural number.
\<close>

definition optProjectionForGateCIs ::
  "('gs, 'gate) classes \<Rightarrow> providers \<Rightarrow> ('gs, 'gate) store \<Rightarrow> addr \<Rightarrow> mat \<Rightarrow> nat \<Rightarrow> int \<Rightarrow>
   flags \<Rightarrow> real \<Rightarrow> (error + mat) \<times> event list" where
  "optProjectionForGateCIs cls prov s gateset_ref base_hessian nNonGauge nGauge fl lvl =
     (case zeros_flat nNonGauge nGauge of
        Inl e \<Rightarrow> (Inl e, [])
      | Inr x0 \<Rightarrow>
          (case minimize prov
                  (objective_func cls prov s gateset_ref base_hessian nNonGauge (nat nGauge) fl lvl)
                  x0 of
             (Inl e, evs) \<Rightarrow> (Inl e, evs)
           | (Inr x, evs) \<Rightarrow>
               (bind (reshape x nNonGauge (nat nGauge)) (\<lambda>mixMx.
                let proj_extra = get_nongauge_projector_mix cls (gateset_at s gateset_ref) mixMx fl in
                bind (dot base_hessian proj_extra) (\<lambda>HP. dot proj_extra HP)), evs)))"

text \<open>Lines 66 to 76: the projection of the Hessian onto the non-gauge space.\<close>

definition project_hessian ::
  "('gs, 'gate) classes \<Rightarrow> providers \<Rightarrow> ('gs, 'gate) store \<Rightarrow> addr \<Rightarrow> mat \<Rightarrow> nat \<Rightarrow> int \<Rightarrow>
   flags \<Rightarrow> real \<Rightarrow> string \<Rightarrow> (error + mat) \<times> event list" where
  "project_hessian cls prov s gateset_ref hessian nNonGauge nGauge fl confidenceLevel hessianProjection =
     (let proj_non_gauge = get_nongauge_projector cls (gateset_at s gateset_ref) fl
      in if hessianProjection = ''none'' then (Inr hessian, [])
         else if hessianProjection = ''std''
           then (bind (dot hessian proj_non_gauge) (\<lambda>HP. dot proj_non_gauge HP), [])
         else if hessianProjection = ''optimal gate CIs''
           then optProjectionForGateCIs cls prov s gateset_ref hessian nNonGauge nGauge
                  fl confidenceLevel
         else (Inl (ValueError (''Invalid value of hessianProjection argument: ''
                                 @ hessianProjection)), []))"

text \<open>\<open>ConfidenceRegion.__init__\<close> (lines 24 to 135).\<close>

definition init ::
  "('gs, 'gate) classes \<Rightarrow> providers \<Rightarrow> ('gs, 'gate) store \<Rightarrow> addr \<Rightarrow> mat \<Rightarrow> real \<Rightarrow> flags \<Rightarrow>
   string \<Rightarrow> (error + region) \<times> event list" where
  "init cls prov s gateset_ref hessian confidenceLevel fl hessianProjection =
     (let gs = gateset_at s gateset_ref;
          proj_non_gauge = get_nongauge_projector cls gs fl;
          nNonGauge = matrix_rank prov proj_non_gauge (P_RANK_TOL prov);
          nGauge = int (length hessian) - int nNonGauge
      in case project_hessian cls prov s gateset_ref hessian nNonGauge nGauge fl
                confidenceLevel hessianProjection of
           (Inl e, evs) \<Rightarrow> (Inl e, evs)
         | (Inr projected_hessian, evs) \<Rightarrow>
             init_calibrate prov (get_vector_offsets cls gs fl) gateset_ref projected_hessian
               confidenceLevel fl nNonGauge nGauge evs)"

subsection \<open>Propagating a gradient through the inverse quadratic form\<close>

text \<open>
  \<open>gradF\<close>: for a Python float \<open>f0\<close> the one-dimensional array of line 252; for an array
  \<open>f0\<close> of shape \<open>S\<close> the array of shape \<open>(nParams,) + S\<close> of line 255, kept as the list of
  its \<open>nParams\<close> entries \<open>gradF[p]\<close>, each in row-major order.
\<close>

datatype grad =
    GradFloat vec
  | GradReal "real list list"
  | GradComplex "complex list list"

text \<open>What a propagation returns: \<open>df\<close>, or \<open>(df, f0)\<close>.\<close>

datatype retval = Df fval | DfF0 fval fval

definition zeros_grad :: "nat \<Rightarrow> fval \<Rightarrow> grad" where
  "zeros_grad nParams f0 =
     (case f0 of
        PyFloat _ \<Rightarrow> GradFloat (replicate nParams 0)
      | FloatArr shape _ \<Rightarrow> GradReal (replicate nParams (replicate (prod_list shape) 0))
      | ComplexArr shape _ \<Rightarrow> GradComplex (replicate nParams (replicate (prod_list shape) 0)))"

definition nparams_grad :: "grad \<Rightarrow> nat" where
  "nparams_grad g = (case g of GradFloat v \<Rightarrow> length v | GradReal rows \<Rightarrow> length rows
                     | GradComplex rows \<Rightarrow> length rows)"

text \<open>
  \<open>gradF[idx] = (f1 - f0) / eps\<close>.  Two Python floats are divided by Python, which raises
  for \<open>eps = 0\<close>.  A perturbed value \<open>f1\<close> of another kind or shape than \<open>f0\<close> is not
  covered (numpy broadcasts or casts some of these combinations): it is an error here.
\<close>

definition set_grad :: "grad \<Rightarrow> nat \<Rightarrow> fval \<Rightarrow> fval \<Rightarrow> real \<Rightarrow> error + grad" where
  "set_grad gradF idx f1 f0 eps =
     (case (gradF, f1, f0) of
        (GradFloat g, PyFloat y1, PyFloat y0) \<Rightarrow>
          if eps = 0 then Inl ZeroDivisionError
          else if idx < length g then Inr (GradFloat (g[idx := (y1 - y0) / eps]))
          else Inl IndexError
      | (GradReal rows, FloatArr sh1 d1, FloatArr sh0 d0) \<Rightarrow>
          if sh1 = sh0 \<and> length d1 = prod_list sh0 \<and> length d0 = prod_list sh0
          then if idx < length rows
               then Inr (GradReal (rows[idx := map2 (\<lambda>a b. (a - b) / eps) d1 d0]))
               else Inl IndexError
          else Inl (ValueError ''operands could not be broadcast together'')
      | (GradComplex rows, ComplexArr sh1 d1, ComplexArr sh0 d0) \<Rightarrow>
          if sh1 = sh0 \<and> length d1 = prod_list sh0 \<and> length d0 = prod_list sh0
          then if idx < length rows
               then Inr (GradComplex (rows[idx := map2 (\<lambda>a b. (a - b) / of_real eps) d1 d0]))
               else Inl IndexError
          else Inl (ValueError ''operands could not be broadcast together'')
      | _ \<Rightarrow> Inl (ValueError ''operands could not be broadcast together''))"

text \<open>\<open>sqrt(abs(dot(conj(g), dot(invQ, g))))\<close> for a real vector \<open>g\<close>.\<close>

definition halfwidth :: "mat \<Rightarrow> vec \<Rightarrow> error + real" where
  "halfwidth invQ g = bind (dot_mv invQ g) (\<lambda>w. bind (dot_vv g w) (\<lambda>q. Inr (sqrt \<bar>q\<bar>)))"

text \<open>Lines 424 and 425: the real and the imaginary parts apart.\<close>

definition halfwidth_complex :: "mat \<Rightarrow> complex list \<Rightarrow> error + complex" where
  "halfwidth_complex invQ g =
     bind (halfwidth invQ (map Re g)) (\<lambda>a.
     bind (halfwidth invQ (map Im g)) (\<lambda>b. Inr (Complex a b)))"

text \<open>
  After \<open>rollaxis\<close> the parameter axis is the last one: \<open>gradF[i]\<close> and \<open>gradF[i,j]\<close> are the
  gradient of the element with row-major index \<open>e\<close>.  An index beyond an entry of
  \<open>gradF\<close> raises.
\<close>

definition rolled :: "'a list list \<Rightarrow> nat \<Rightarrow> error + 'a list" where
  "rolled rows e =
     (if list_all (\<lambda>row. e < length row) rows then Inr (map (\<lambda>row. row ! e) rows)
      else Inl IndexError)"

fun sequence :: "(error + 'a) list \<Rightarrow> error + 'a list" where
  "sequence [] = Inr []"
| "sequence (r # rs) = bind r (\<lambda>x. bind (sequence rs) (\<lambda>xs. Inr (x # xs)))"

fun str_nat :: "nat \<Rightarrow> string" where
  "str_nat n =
     (if n < 10 then [char_of (48 + n)] else str_nat (n div 10) @ [char_of (48 + n mod 10)])"

declare str_nat.simps [simp del]

text \<open>The loops of lines 427 to 436 and 450 to 457 over the elements of \<open>df\<close>.\<close>

definition df_elements :: "(nat \<Rightarrow> error + 'a) \<Rightarrow> nat list \<Rightarrow> error + 'a list" where
  "df_elements hw shape =
     (if length shape = 0 then bind (hw 0) (\<lambda>d. Inr [d])
      else if length shape = 1 then sequence (map (\<lambda>i. hw i) [0..<shape ! 0])
      else if length shape = 2
        then bind (sequence (map (\<lambda>i. sequence (map (\<lambda>j. hw (i * (shape ! 1) + j))
                                                       [0..<shape ! 1])) [0..<shape ! 0]))
               (\<lambda>rows. Inr (concat rows))
      else Inl (ValueError (''Unsupported number of dimensions returned by fnOfGate or fnOfGateset: ''
                            @ str_nat (length shape))))"

text \<open>
  \<open>_compute_df_from_gradF\<close> (lines 394 to 464); its printing is left out.  The result for
  a Python float or a zero-dimensional array is a numpy scalar, written as an array of
  shape \<open>()\<close>.  The three callers pass a \<open>gradF\<close> of the kind of \<open>f0\<close>; any other pair is
  an error here.
\<close>

definition compute_df_from_gradF :: "region \<Rightarrow> grad \<Rightarrow> fval \<Rightarrow> bool \<Rightarrow> error + retval" where
  "compute_df_from_gradF r gradF f0 returnFnVal =
     bind
       (case (f0, gradF) of
          (PyFloat _, GradFloat g) \<Rightarrow>
            bind (halfwidth (invRegionQuadcForm r) g) (\<lambda>d. Inr (FloatArr [] [d]))
        | (ComplexArr shape _, GradComplex rows) \<Rightarrow>
            bind (df_elements (\<lambda>e. bind (rolled rows e) (halfwidth_complex (invRegionQuadcForm r)))
                    shape)
              (\<lambda>ds. Inr (ComplexArr shape ds))
        | (FloatArr shape _, GradReal rows) \<Rightarrow>
            bind (df_elements (\<lambda>e. bind (rolled rows e) (halfwidth (invRegionQuadcForm r)))
                    shape)
              (\<lambda>ds. Inr (FloatArr shape ds))
        | _ \<Rightarrow> Inl (ValueError ''shapes not aligned''))
       (\<lambda>df. Inr (if returnFnVal then DfF0 df f0 else Df df))"

subsection \<open>Intervals for functions of a gate, of a gate set, of the SPAM vectors\<close>

text \<open>
  A user function is a function of the state of the object it is given.  Each of the
  three methods returns its result, the store it leaves and the arguments at which it
  has evaluated the user function, in order.
\<close>

text \<open>Line 257.\<close>

definition gate_is_parameterized :: "gates_flag \<Rightarrow> string \<Rightarrow> bool" where
  "gate_is_parameterized gates gateLabel =
     (case gates of GatesBool b \<Rightarrow> b | GatesList ls \<Rightarrow> gateLabel \<in> set ls
      | GatesTuple ls \<Rightarrow> gateLabel \<in> set ls)"

text \<open>Lines 258 to 260.\<close>

fun gate_loop ::
  "('gs, 'gate) classes \<Rightarrow> (mat \<Rightarrow> fval) \<Rightarrow> bool \<Rightarrow> real \<Rightarrow> addr \<Rightarrow> vec \<Rightarrow> nat \<Rightarrow> fval \<Rightarrow>
   nat list \<Rightarrow> grad \<Rightarrow> ('gs, 'gate) store \<Rightarrow> mat list \<Rightarrow>
   (error + grad) \<times> ('gs, 'gate) store \<times> mat list" where
  "gate_loop cls fnOfGate G0 eps gateObj gateVec0 gpo f0 [] gradF s lg = (Inr gradF, s, lg)"
| "gate_loop cls fnOfGate G0 eps gateObj gateVec0 gpo f0 (i # is) gradF s lg =
     (if \<not> i < length gateVec0 then (Inl IndexError, s, lg)
      else
        let gateVec = gateVec0[i := gateVec0 ! i + eps];
            s1 = put_gate s gateObj (gate_from_vector cls (gate_at s gateObj) gateVec G0);
            mx = gate_matrix cls (gate_at s1 gateObj);
            lg1 = lg @ [mx]
        in case set_grad gradF (gpo + i) (fnOfGate mx) f0 eps of
             Inl e \<Rightarrow> (Inl e, s1, lg1)
           | Inr gradF1 \<Rightarrow>
               gate_loop cls fnOfGate G0 eps gateObj gateVec0 gpo f0 is gradF1 s1 lg1)"

text \<open>Lines 239 to 260: the gradient that line 262 hands on, with \<open>f0\<close>.\<close>

definition gate_fn_gradF ::
  "('gs, 'gate) classes \<Rightarrow> region \<Rightarrow> ('gs, 'gate) store \<Rightarrow> (mat \<Rightarrow> fval) \<Rightarrow> string \<Rightarrow> real \<Rightarrow>
   (error + grad \<times> fval) \<times> ('gs, 'gate) store \<times> mat list" where
  "gate_fn_gradF cls r s fnOfGate gateLabel eps =
     (case gateset_paramFlags r of (gates, G0, SPAM, SP0) \<Rightarrow>
      let gs = gateset_at s (gateset r);
          nParams = num_params cls gs (gates, G0, SPAM, SP0)
      in case getitem cls gs gateLabel of
           None \<Rightarrow> (Inl (KeyError gateLabel), s, [])
         | Some gateMx \<Rightarrow>
        (case get_gate cls gs gateLabel of
           None \<Rightarrow> (Inl (KeyError gateLabel), s, [])
         | Some g \<Rightarrow>
        (case copy_gate s g of (gateObj, s1) \<Rightarrow>
        (case gateset_offsets r gateLabel of
           None \<Rightarrow> (Inl (KeyError gateLabel), s1, [])
         | Some (gpo, gend) \<Rightarrow>
             let f0 = fnOfGate gateMx;
                 nGateParams = gate_num_params cls (gate_at s1 gateObj) G0;
                 gateVec0 = gate_to_vector cls (gate_at s1 gateObj) G0;
                 gradF = zeros_grad nParams f0
             in if gate_is_parameterized gates gateLabel
                then (case gate_loop cls fnOfGate G0 eps gateObj gateVec0 gpo f0
                             [0..<nGateParams] gradF s1 [gateMx] of
                        (Inl e, s2, lg) \<Rightarrow> (Inl e, s2, lg)
                      | (Inr gradF1, s2, lg) \<Rightarrow> (Inr (gradF1, f0), s2, lg))
                else (Inr (gradF, f0), s1, [gateMx])))))"

text \<open>\<open>get_gate_fn_confidence_interval\<close> (lines 203 to 262).\<close>

definition get_gate_fn_confidence_interval ::
  "('gs, 'gate) classes \<Rightarrow> region \<Rightarrow> ('gs, 'gate) store \<Rightarrow> (mat \<Rightarrow> fval) \<Rightarrow> string \<Rightarrow> real \<Rightarrow>
   bool \<Rightarrow> (error + retval) \<times> ('gs, 'gate) store \<times> mat list" where
  "get_gate_fn_confidence_interval cls r s fnOfGate gateLabel eps returnFnVal =
     (case gate_fn_gradF cls r s fnOfGate gateLabel eps of
        (Inl e, s1, lg) \<Rightarrow> (Inl e, s1, lg)
      | (Inr (gradF, f0), s1, lg) \<Rightarrow> (compute_df_from_gradF r gradF f0 returnFnVal, s1, lg))"

text \<open>Lines 314 to 317.\<close>

fun gateset_loop ::
  "('gs, 'gate) classes \<Rightarrow> ('gs \<Rightarrow> fval) \<Rightarrow> flags \<Rightarrow> real \<Rightarrow> addr \<Rightarrow> vec \<Rightarrow> fval \<Rightarrow>
   nat list \<Rightarrow> grad \<Rightarrow> ('gs, 'gate) store \<Rightarrow> 'gs list \<Rightarrow>
   (error + grad) \<times> ('gs, 'gate) store \<times> 'gs list" where
  "gateset_loop cls fnOfGateset fl eps gsObj gatesetVec0 f0 [] gradF s lg = (Inr gradF, s, lg)"
| "gateset_loop cls fnOfGateset fl eps gsObj gatesetVec0 f0 (i # is) gradF s lg =
     (if \<not> i < length gatesetVec0 then (Inl IndexError, s, lg)
      else
        let gatesetVec = gatesetVec0[i := gatesetVec0 ! i + eps];
            s1 = put_gateset s gsObj (from_vector cls (gateset_at s gsObj) gatesetVec fl);
            lg1 = lg @ [gateset_at s1 gsObj]
        in case set_grad gradF i (fnOfGateset (gateset_at s1 gsObj)) f0 eps of
             Inl e \<Rightarrow> (Inl e, s1, lg1)
           | Inr gradF1 \<Rightarrow> gateset_loop cls fnOfGateset fl eps gsObj gatesetVec0 f0 is gradF1 s1 lg1)"

text \<open>\<open>get_gateset_fn_confidence_interval\<close> (lines 265 to 319).\<close>

definition get_gateset_fn_confidence_interval ::
  "('gs, 'gate) classes \<Rightarrow> region \<Rightarrow> ('gs, 'gate) store \<Rightarrow> ('gs \<Rightarrow> fval) \<Rightarrow> real \<Rightarrow> bool \<Rightarrow>
   (error + retval) \<times> ('gs, 'gate) store \<times> 'gs list" where
  "get_gateset_fn_confidence_interval cls r s fnOfGateset eps returnFnVal =
     (let fl = gateset_paramFlags r;
          nParams = num_params cls (gateset_at s (gateset r)) fl
      in case copy_gateset s (gateset_at s (gateset r)) of (gsObj, s1) \<Rightarrow>
         let f0 = fnOfGateset (gateset_at s1 gsObj);
             gatesetVec0 = to_vector cls (gateset_at s1 gsObj) fl
         in if length gatesetVec0 \<noteq> nParams then (Inl AssertionError, s1, [gateset_at s1 gsObj])
            else (case gateset_loop cls fnOfGateset fl eps gsObj gatesetVec0 f0 [0..<nParams]
                         (zeros_grad nParams f0) s1 [gateset_at s1 gsObj] of
                    (Inl e, s2, lg) \<Rightarrow> (Inl e, s2, lg)
                  | (Inr gradF, s2, lg) \<Rightarrow> (compute_df_from_gradF r gradF f0 returnFnVal, s2, lg)))"

text \<open>
  Lines 377 to 380 and 386 to 389: the inner loop over the parameters of one vector.
  \<open>setter\<close> is \<open>set_rhovec\<close> or \<open>set_evec\<close>, \<open>m\<close> the index of the first parameter.
\<close>

fun spam_vec_loop ::
  "('gs, 'gate) classes \<Rightarrow> (vec list \<Rightarrow> vec list \<Rightarrow> fval) \<Rightarrow> ('gs \<Rightarrow> vec \<Rightarrow> nat \<Rightarrow> 'gs) \<Rightarrow> real \<Rightarrow>
   addr \<Rightarrow> vec \<Rightarrow> nat \<Rightarrow> nat \<Rightarrow> nat \<Rightarrow> fval \<Rightarrow>
   nat list \<Rightarrow> grad \<Rightarrow> ('gs, 'gate) store \<Rightarrow> (vec list \<times> vec list) list \<Rightarrow>
   (error + grad) \<times> ('gs, 'gate) store \<times> (vec list \<times> vec list) list" where
  "spam_vec_loop cls fn setter eps gsEps v k m off f0 [] gradF s lg = (Inr gradF, s, lg)"
| "spam_vec_loop cls fn setter eps gsEps v k m off f0 (i # is) gradF s lg =
     (if \<not> m + i < length v then (Inl IndexError, s, lg)
      else
        let vecEps = v[m + i := v ! (m + i) + eps];
            s1 = put_gateset s gsEps (setter (gateset_at s gsEps) vecEps k);
            args = (get_rhovecs cls (gateset_at s1 gsEps), get_evecs cls (gateset_at s1 gsEps));
            lg1 = lg @ [args]
        in case set_grad gradF (off + i) (fn (fst args) (snd args)) f0 eps of
             Inl e \<Rightarrow> (Inl e, s1, lg1)
           | Inr gradF1 \<Rightarrow> spam_vec_loop cls fn setter eps gsEps v k m off f0 is gradF1 s1 lg1)"

text \<open>
  Lines 373 to 380 and 383 to 389: the outer loop over the enumerated vectors.
  \<open>prefix\<close> is \<open>''rho''\<close> or \<open>''E''\<close>; \<open>skip\<close> tells whether the first parameter of each
  vector is left out (the state preparations when \<open>SP0\<close> is false).
\<close>

fun spam_loop ::
  "('gs, 'gate) classes \<Rightarrow> region \<Rightarrow> (vec list \<Rightarrow> vec list \<Rightarrow> fval) \<Rightarrow> ('gs \<Rightarrow> vec \<Rightarrow> nat \<Rightarrow> 'gs) \<Rightarrow>
   string \<Rightarrow> bool \<Rightarrow> real \<Rightarrow> addr \<Rightarrow> fval \<Rightarrow>
   (nat \<times> vec) list \<Rightarrow> grad \<Rightarrow> ('gs, 'gate) store \<Rightarrow> (vec list \<times> vec list) list \<Rightarrow>
   (error + grad) \<times> ('gs, 'gate) store \<times> (vec list \<times> vec list) list" where
  "spam_loop cls r fn setter prefix skip eps gsEps f0 [] gradF s lg = (Inr gradF, s, lg)"
| "spam_loop cls r fn setter prefix skip eps gsEps f0 ((k, v) # kvs) gradF s lg =
     (let nVecParams = (if skip then length v - 1 else length v);
          m = (if skip then 1 else 0)
      in case gateset_offsets r (prefix @ str_nat k) of
           None \<Rightarrow> (Inl (KeyError (prefix @ str_nat k)), s, lg)
         | Some (off, oend) \<Rightarrow>
             (case spam_vec_loop cls fn setter eps gsEps v k m off f0 [0..<nVecParams] gradF s lg of
                (Inl e, s1, lg1) \<Rightarrow> (Inl e, s1, lg1)
              | (Inr gradF1, s1, lg1) \<Rightarrow>
                  spam_loop cls r fn setter prefix skip eps gsEps f0 kvs gradF1
                    (put_gateset s1 gsEps (setter (gateset_at s1 gsEps) v k)) lg1))"

text \<open>\<open>get_spam_fn_confidence_interval\<close> (lines 322 to 391).\<close>

definition get_spam_fn_confidence_interval ::
  "('gs, 'gate) classes \<Rightarrow> region \<Rightarrow> ('gs, 'gate) store \<Rightarrow> (vec list \<Rightarrow> vec list \<Rightarrow> fval) \<Rightarrow> real \<Rightarrow>
   bool \<Rightarrow> (error + retval) \<times> ('gs, 'gate) store \<times> (vec list \<times> vec list) list" where
  "get_spam_fn_confidence_interval cls r s fnOfSpamVecs eps returnFnVal =
     (case gateset_paramFlags r of (gates, G0, SPAM, SP0) \<Rightarrow>
      let gs = gateset_at s (gateset r);
          nParams = num_params cls gs (gates, G0, SPAM, SP0);
          args0 = (get_rhovecs cls gs, get_evecs cls gs);
          f0 = fnOfSpamVecs (fst args0) (snd args0);
          gradF = zeros_grad nParams f0
      in if SPAM
         then (case copy_gateset s gs of (gsEps, s1) \<Rightarrow>
               (case spam_loop cls r fnOfSpamVecs (set_rhovec cls) ''rho'' (\<not> SP0) eps gsEps f0
                       (enumerate 0 (rhoVecs cls (gateset_at s1 (gateset r)))) gradF s1 [args0] of
                  (Inl e, s2, lg) \<Rightarrow> (Inl e, s2, lg)
                | (Inr gradF1, s2, lg) \<Rightarrow>
                    (case spam_loop cls r fnOfSpamVecs (set_evec cls) ''E'' False eps gsEps f0
                            (enumerate 0 (EVecs cls (gateset_at s2 (gateset r)))) gradF1 s2 lg of
                       (Inl e, s3, lg3) \<Rightarrow> (Inl e, s3, lg3)
                     | (Inr gradF2, s3, lg3) \<Rightarrow>
                         (compute_df_from_gradF r gradF2 f0 returnFnVal, s3, lg3))))
         else (compute_df_from_gradF r gradF f0 returnFnVal, s, [args0]))"

subsection \<open>Notions used in the statements\<close>

text \<open>An \<open>n\<close> by \<open>n\<close> array; the array with the entries \<open>f i j\<close>; the column \<open>A[:, j]\<close>.\<close>

definition square :: "nat \<Rightarrow> mat \<Rightarrow> bool" where
  "square n A \<longleftrightarrow> length A = n \<and> list_all (\<lambda>row. length row = n) A"

definition mat_of :: "nat \<Rightarrow> (nat \<Rightarrow> nat \<Rightarrow> real) \<Rightarrow> mat" where
  "mat_of n f = map (\<lambda>i. map (\<lambda>j. f i j) [0..<n]) [0..<n]"

definition column :: "mat \<Rightarrow> nat \<Rightarrow> vec" where
  "column A j = map (\<lambda>row. row ! j) A"

text \<open>The entry \<open>gradF[p]\<close> is zero (all of its elements, for an array \<open>f0\<close>).\<close>

definition zero_entry :: "grad \<Rightarrow> nat \<Rightarrow> bool" where
  "zero_entry gradF p =
     (case gradF of
        GradFloat v \<Rightarrow> v ! p = 0
      | GradReal rows \<Rightarrow> list_all (\<lambda>x. x = 0) (rows ! p)
      | GradComplex rows \<Rightarrow> list_all (\<lambda>x. x = 0) (rows ! p))"

text \<open>
  Every object that exists in the store \<open>s\<close> (every address below the next free ones)
  has the same state in \<open>s'\<close>; \<open>s'\<close> may hold new objects.
\<close>

definition preserves :: "('gs, 'gate) store \<Rightarrow> ('gs, 'gate) store \<Rightarrow> bool" where
  "preserves s s' \<longleftrightarrow>
     (\<forall>a<next_gateset s. gateset_at s' a = gateset_at s a) \<and>
     (\<forall>a<next_gate s. gate_at s' a = gate_at s a) \<and>
     next_gateset s \<le> next_gateset s' \<and> next_gate s \<le> next_gate s'"

text \<open>
  \<open>gradF\<close> is as lines 251 to 255 allocate it for \<open>f0\<close>: of the dtype of \<open>f0\<close> and of the shape
  \<open>(nParams,) + f0.shape\<close>, so that each entry has as many elements as \<open>f0\<close>.  Then the shape
  of an array \<open>f0\<close>, and the \<open>df\<close> of a result.
\<close>

definition kind_ok :: "fval \<Rightarrow> grad \<Rightarrow> bool" where
  "kind_ok f0 gradF =
     (case (f0, gradF) of
        (PyFloat _, GradFloat _) \<Rightarrow> True
      | (FloatArr shape _, GradReal rows) \<Rightarrow> list_all (\<lambda>row. length row = prod_list shape) rows
      | (ComplexArr shape _, GradComplex rows) \<Rightarrow>
          list_all (\<lambda>row. length row = prod_list shape) rows
      | _ \<Rightarrow> False)"

definition array_shape :: "fval \<Rightarrow> nat list option" where
  "array_shape f0 =
     (case f0 of PyFloat _ \<Rightarrow> None | FloatArr shape _ \<Rightarrow> Some shape
      | ComplexArr shape _ \<Rightarrow> Some shape)"

definition df_of :: "retval \<Rightarrow> fval" where
  "df_of res = (case res of Df d \<Rightarrow> d | DfF0 d _ \<Rightarrow> d)"

text \<open>
  The half-width in the words of the spec (4.2, step 4): \<open>df = sqrt(|gradF\<^sup>H invQ gradF|)\<close>,
  and for a complex value the half-widths of the real and of the imaginary part,
  recombined as \<open>real_df + i imag_df\<close>.
\<close>

definition quad_form :: "mat \<Rightarrow> vec \<Rightarrow> real" where
  "quad_form A g =
     sum_list (map (\<lambda>i. sum_list (map (\<lambda>j. g ! i * A ! i ! j * g ! j) [0..<length g]))
                 [0..<length g])"

definition spec_halfwidth :: "mat \<Rightarrow> vec \<Rightarrow> real" where
  "spec_halfwidth A g = sqrt \<bar>quad_form A g\<bar>"

definition spec_halfwidth_complex :: "mat \<Rightarrow> complex list \<Rightarrow> complex" where
  "spec_halfwidth_complex A g =
     Complex (spec_halfwidth A (map Re g)) (spec_halfwidth A (map Im g))"

subsection \<open>A gate set with two parameters\<close>

text \<open>
  One gate \<open>Gx\<close> with one parameter (index 0, a gauge direction) and one state preparation
  \<open>rho0\<close> with one parameter (index 1); the state of the gate set is its parameter
  vector.  The providers are exact on diagonal matrices, with \<open>C1 = 4\<close>.
\<close>

definition ex_classes :: "(vec, vec) classes" where
  "ex_classes =
     \<lparr>get_nongauge_projector = (\<lambda>gs fl. [[0, 0], [0, 1]]),
      get_nongauge_projector_mix = (\<lambda>gs M fl. [[0, 0], [0, 1]]),
      get_vector_offsets = (\<lambda>gs fl. [''Gx'' \<mapsto> (0, 1), ''rho0'' \<mapsto> (1, 2)]),
      num_params = (\<lambda>gs fl. 2),
      gate_labels = (\<lambda>gs. [''Gx'']),
      getitem = (\<lambda>gs. [''Gx'' \<mapsto> [[gs ! 0]]]),
      get_gate = (\<lambda>gs. [''Gx'' \<mapsto> [gs ! 0]]),
      to_vector = (\<lambda>gs fl. gs),
      from_vector = (\<lambda>gs v fl. v),
      get_rhovecs = (\<lambda>gs. [[gs ! 1]]),
      get_evecs = (\<lambda>gs. []),
      rhoVecs = (\<lambda>gs. [[gs ! 1]]),
      EVecs = (\<lambda>gs. []),
      set_rhovec = (\<lambda>gs v k. gs[1 := v ! 0]),
      set_evec = (\<lambda>gs v k. gs),
      gate_num_params = (\<lambda>g G0. length g),
      gate_to_vector = (\<lambda>g G0. g),
      gate_from_vector = (\<lambda>g v G0. v),
      gate_matrix = (\<lambda>g. [g])\<rparr>"

definition ex_providers :: providers where
  "ex_providers =
     \<lparr>chi2_ppf = (\<lambda>q df. 4 * real df),
      norm_ppf = (\<lambda>q. - 2),
      eigh = (\<lambda>Q. Inr (map (\<lambda>i. Q ! i ! i) [0..<length Q],
                        map (\<lambda>i. (replicate (length Q) 0)[i := 1]) [0..<length Q])),
      matrix_rank = (\<lambda>P tol. length (filter (\<lambda>row. row \<noteq> replicate (length row) 0) P)),
      P_RANK_TOL = 1 / 10 ^ 10,
      minimize = (\<lambda>f x0. (Inr x0, snd (f x0)))\<rparr>"

definition ex_store :: "(vec, vec) store" where
  "ex_store = \<lparr>gateset_at = (\<lambda>a. [1, 2]), gate_at = (\<lambda>a. []), next_gateset = 1, next_gate = 0\<rparr>"

definition ex_flags :: flags where
  "ex_flags = (GatesBool True, True, True, True)"

definition ex_hessian :: mat where
  "ex_hessian = [[4, 0], [0, 16]]"

definition ex_region :: region where
  "ex_region =
     \<lparr>nNonGaugeParams = 1, nGaugeParams = 1, regionQuadcForm = [[0, 0], [0, 4]],
      intervalScaling = 1, invRegionQuadcForm = [[0, 0], [0, 1 / 4]],
      U = [[1, 0], [0, 1]], Udag = [[1, 0], [0, 1]], gateset_paramFlags = ex_flags,
      gateset_offsets = [''Gx'' \<mapsto> (0, 1), ''rho0'' \<mapsto> (1, 2)], profLCI = [0, 1 / 2],
      gateset = 0, level = 95\<rparr>"

text \<open>User functions of the gate matrix, of the gate set and of the SPAM vectors.\<close>

definition ex_fnOfGate :: "mat \<Rightarrow> fval" where
  "ex_fnOfGate mx = PyFloat (mx ! 0 ! 0)"

definition ex_fnOfGateset :: "vec \<Rightarrow> fval" where
  "ex_fnOfGateset gs = PyFloat (gs ! 0 + 2 * gs ! 1)"

definition ex_fnOfSpamVecs :: "vec list \<Rightarrow> vec list \<Rightarrow> fval" where
  "ex_fnOfSpamVecs rhos es = PyFloat (rhos ! 0 ! 0)"

section \<open>Properties\<close>

text \<open>The constructor in the mode \<open>none\<close> is the constructor that \<open>objective_func\<close> calls.\<close>

lemma init_none_eq: "init cls prov s g H lvl fl ''none'' = init_none cls prov s g H lvl fl"
  by (simp add: init_def init_none_def project_hessian_def Let_def)

subsection \<open>The example, evaluated\<close>

lemma sqrt_quarter: "sqrt (1 / 4) = 1 / 2"
  by (simp add: real_sqrt_divide)

lemma ex_orderInds: "orderInds [0, 4] = [0, 1]"
  by (simp add: orderInds_def enumerate_eq_zip)

lemma ex_invEvals: "invEvals [0, 4] 1 = [0, 1 / 4]"
  by (simp add: invEvals_def ex_orderInds slice_from_def)

lemma transpose_2x2: "transpose [[a, b], [c, d]] = [[a, c], [b, d::real]]"
  by (simp add: transpose.simps)

lemma upt_0_2: "[0..<2] = [0, 1]"
  by (simp add: upt_rec)

text \<open>The constructor on the example, in the mode \<open>std\<close>.\<close>

lemma ex_init_std:
  "init ex_classes ex_providers ex_store 0 ex_hessian 95 ex_flags ''std''
     = (Inr ex_region, [EighCall [[0, 0], [0, 4]]])"
  by (simp add: init_def project_hessian_def init_calibrate_def ex_classes_def ex_providers_def
      ex_store_def ex_hessian_def ex_region_def Let_def bind_def dot_def transpose_2x2 isclose_def
      divide_scalar_def ex_invEvals diag_def upt_0_2 diag_entry_def sqrt_quarter)

subsection \<open>Auxiliary facts\<close>

lemma bind_Inr_iff: "bind m f = Inr y \<longleftrightarrow> (\<exists>x. m = Inr x \<and> f x = Inr y)"
  by (cases m) (simp_all add: bind_def)

lemma bind_Inr [simp]: "bind (Inr x) f = f x"
  by (simp add: bind_def)

lemma bind_Inl [simp]: "bind (Inl e) f = Inl e"
  by (simp add: bind_def)

lemma init_calibrate_Inr:
  assumes "init_calibrate prov offs g PH lvl fl nNon nG evs0 = (Inr r, evs)"
  shows "0 < lvl \<and> lvl < 100 \<and>
         isclose (chi2_ppf prov (lvl / 100) 1) ((- norm_ppf prov ((1 - lvl / 100) / 2)) ^ 2) \<and>
         (\<exists>evals DU.
            eigh prov (regionQuadcForm r) = Inr (evals, U r) \<and>
            dot (diag (invEvals evals nG)) (transpose (U r)) = Inr DU \<and>
            dot (U r) DU = Inr (invRegionQuadcForm r) \<and>
            profLCI_list (invRegionQuadcForm r) [0..<length evals] = Inr (profLCI r)) \<and>
         nNonGaugeParams r = nNon \<and> nGaugeParams r = nG \<and>
         regionQuadcForm r = divide_scalar PH (chi2_ppf prov (lvl / 100) 1) \<and>
         intervalScaling r = sqrt (chi2_ppf prov (lvl / 100) nNon / chi2_ppf prov (lvl / 100) 1) \<and>
         Udag r = transpose (U r) \<and> gateset_paramFlags r = fl \<and> gateset_offsets r = offs \<and>
         gateset r = g \<and> level r = lvl \<and>
         evs = (if lvl < 1 then evs0 @ [UserWarning lvl] else evs0) @ [EighCall (regionQuadcForm r)]"
  using assms
  by (auto simp: init_calibrate_def Let_def bind_Inr_iff split: if_splits sum.splits prod.splits)

lemma init_Inr:
  assumes "init cls prov s g H lvl fl mode = (Inr r, evs)"
  shows "\<exists>PH evs0.
           project_hessian cls prov s g H
             (matrix_rank prov (get_nongauge_projector cls (gateset_at s g) fl) (P_RANK_TOL prov))
             (int (length H) - int (matrix_rank prov (get_nongauge_projector cls (gateset_at s g) fl) (P_RANK_TOL prov)))
             fl lvl mode = (Inr PH, evs0) \<and>
           init_calibrate prov (get_vector_offsets cls (gateset_at s g) fl) g PH lvl fl
             (matrix_rank prov (get_nongauge_projector cls (gateset_at s g) fl) (P_RANK_TOL prov))
             (int (length H) - int (matrix_rank prov (get_nongauge_projector cls (gateset_at s g) fl) (P_RANK_TOL prov)))
             evs0 = (Inr r, evs)"
  using assms
  by (auto simp: init_def Let_def split: prod.splits sum.splits)

lemma profLCI_list_Inr:
  "profLCI_list invQ ks = Inr lci \<Longrightarrow>
   length lci = length ks \<and>
   (\<forall>i<length ks. ks ! i < length invQ \<and> ks ! i < length (invQ ! (ks ! i)) \<and>
        lci ! i = sqrt \<bar>invQ ! (ks ! i) ! (ks ! i)\<bar>)"
proof (induction ks arbitrary: lci)
  case Nil
  then show ?case by simp
next
  case (Cons k ks)
  from Cons.prems obtain d rest where
    d: "diag_entry invQ k = Inr d" and rest: "profLCI_list invQ ks = Inr rest"
    and lci: "lci = sqrt \<bar>d\<bar> # rest"
    by (auto simp: bind_Inr_iff)
  from d have dk: "k < length invQ \<and> k < length (invQ ! k) \<and> d = invQ ! k ! k"
    by (auto simp: diag_entry_def split: if_splits)
  from Cons.IH[OF rest] lci dk show ?case
    by (auto simp: nth_Cons split: nat.splits)
qed

lemma dot_length: "dot A B = Inr C \<Longrightarrow> length C = length A"
  by (auto simp: dot_def split: if_splits)

lemma dot_rows: "dot A B = Inr C \<Longrightarrow> \<forall>row\<in>set A. length row = length B"
  by (auto simp: dot_def list_all_iff split: if_splits)

lemma square_mat_of [simp]: "square n (mat_of n f)"
  by (simp add: square_def mat_of_def list_all_iff)

lemma mat_of_nth [simp]: "i < n \<Longrightarrow> j < n \<Longrightarrow> mat_of n f ! i ! j = f i j"
  by (simp add: mat_of_def)

lemma square_nth: "square n A \<Longrightarrow> i < n \<Longrightarrow> length (A ! i) = n"
  by (auto simp: square_def list_all_iff)

lemma square_eq_mat_of: "square n A \<Longrightarrow> A = mat_of n (\<lambda>i j. A ! i ! j)"
  unfolding mat_of_def
  by (rule nth_equalityI) (auto simp: square_def square_nth list_all_iff intro!: nth_equalityI)

lemma mat_of_cong: "(\<And>i j. i < n \<Longrightarrow> j < n \<Longrightarrow> f i j = h i j) \<Longrightarrow> mat_of n f = mat_of n h"
  by (simp add: mat_of_def)

lemma sum_list_map2:
  "length u = n \<Longrightarrow> length v = n \<Longrightarrow> sum_list (map2 (*) u v) = (\<Sum>k<n. u ! k * v ! (k::nat) :: real)"
  by (simp add: sum_list_sum_nth atLeast0LessThan)

lemma transpose_square:
  assumes "square n A"
  shows "transpose A = mat_of n (\<lambda>i j. A ! j ! i)"
proof -
  have "transpose A = map (\<lambda>i. map (\<lambda>j. A ! j ! i) [0..<length A]) [0..<n]"
    using assms by (intro transpose_rectangle) (auto simp: square_def list_all_iff)
  with assms show ?thesis by (simp add: mat_of_def square_def)
qed

lemma dot_square:
  assumes A: "square n A" and B: "square n B"
  shows "dot A B = Inr (mat_of n (\<lambda>i j. \<Sum>k<n. A ! i ! k * B ! k ! j))"
proof -
  have ok: "list_all (\<lambda>row. length row = length B) A"
    using A B by (simp add: square_def)
  have "map (\<lambda>row. map (\<lambda>col. sum_list (map2 (*) row col)) (transpose B)) A
        = mat_of n (\<lambda>i j. \<Sum>k<n. A ! i ! k * B ! k ! j)"
    unfolding mat_of_def
  proof (rule nth_equalityI)
    show "length (map (\<lambda>row. map (\<lambda>col. sum_list (map2 (*) row col)) (transpose B)) A)
          = length (map (\<lambda>i. map (\<lambda>j. \<Sum>k<n. A ! i ! k * B ! k ! j) [0..<n]) [0..<n])"
      using A by (simp add: square_def)
  next
    fix i assume "i < length (map (\<lambda>row. map (\<lambda>col. sum_list (map2 (*) row col)) (transpose B)) A)"
    then have i: "i < n" using A by (simp add: square_def)
    have tB: "transpose B = mat_of n (\<lambda>i j. B ! j ! i)" by (rule transpose_square[OF B])
    have "map (\<lambda>col. sum_list (map2 (*) (A ! i) col)) (transpose B)
          = map (\<lambda>j. \<Sum>k<n. A ! i ! k * B ! k ! j) [0..<n]"
      unfolding tB mat_of_def
      by (rule nth_equalityI) (simp_all add: sum_list_map2 square_nth[OF A i])
    with i A show "map (\<lambda>row. map (\<lambda>col. sum_list (map2 (*) row col)) (transpose B)) A ! i
          = map (\<lambda>i. map (\<lambda>j. \<Sum>k<n. A ! i ! k * B ! k ! j) [0..<n]) [0..<n] ! i"
      by (simp add: square_def)
  qed
  with ok show ?thesis by (simp add: dot_def)
qed

lemma diag_mat_of: "length v = n \<Longrightarrow> diag v = mat_of n (\<lambda>i j. if i = j then v ! i else 0)"
  unfolding diag_def mat_of_def
  by (rule nth_equalityI) (auto intro!: nth_equalityI)

lemma dot_mv_square:
  assumes A: "square n A" and v: "length v = n"
  shows "dot_mv A v = Inr (map (\<lambda>i. \<Sum>k<n. A ! i ! k * v ! k) [0..<n])"
proof -
  have ok: "list_all (\<lambda>row. length row = length v) A"
    using A v by (simp add: square_def)
  have "map (\<lambda>row. sum_list (map2 (*) row v)) A = map (\<lambda>i. \<Sum>k<n. A ! i ! k * v ! k) [0..<n]"
    using A v by (intro nth_equalityI) (auto simp: square_def sum_list_map2 square_nth[OF A])
  with ok show ?thesis by (simp add: dot_mv_def)
qed

lemma set_orderInds: "set (orderInds evals) = {0..<length evals}"
proof -
  have "set (orderInds evals) = fst ` set (enumerate 0 evals)"
    by (simp add: orderInds_def)
  also have "\<dots> = set (map fst (enumerate 0 evals))"
    by (simp only: set_map)
  also have "\<dots> = {0..<length evals}"
    by simp
  finally show ?thesis .
qed

lemma distinct_orderInds: "distinct (orderInds evals)"
proof -
  have "distinct (map fst (enumerate 0 evals))" by simp
  then have "inj_on fst (set (enumerate 0 evals))" by (simp only: distinct_map)
  then show ?thesis by (simp add: orderInds_def distinct_map)
qed

lemma length_orderInds: "length (orderInds evals) = length evals"
  by (simp add: orderInds_def)

lemma sorted_orderInds: "sorted (map (\<lambda>i. \<bar>evals ! i\<bar>) (orderInds evals))"
proof -
  have "map (\<lambda>i. \<bar>evals ! i\<bar>) (orderInds evals)
        = map (\<lambda>el. \<bar>snd el\<bar>) (sort_key (\<lambda>el. \<bar>snd el\<bar>) (enumerate 0 evals))"
    unfolding orderInds_def map_map
    by (rule map_cong) (auto simp: enumerate_eq_zip in_set_zip)
  then show ?thesis by (simp add: sorted_sort_key)
qed

lemma foldl_update_length:
  "length (foldl (\<lambda>inv i. inv[i := f i]) xs is) = length xs"
  by (induction "is" arbitrary: xs) simp_all

lemma foldl_update_nth:
  "j < length xs \<Longrightarrow>
   foldl (\<lambda>inv i. inv[i := f i]) xs is ! j = (if j \<in> set is then f j else xs ! j)"
  by (induction "is" arbitrary: xs) (auto simp: nth_list_update)

lemma length_invEvals: "length (invEvals evals k) = length evals"
  by (simp add: invEvals_def foldl_update_length)

lemma invEvals_nth:
  "j < length evals \<Longrightarrow>
   invEvals evals k ! j = (if j \<in> set (slice_from (orderInds evals) k) then 1 / evals ! j else 0)"
  by (simp add: invEvals_def foldl_update_nth)

lemma invEvals_gauge:
  assumes "0 \<le> k" "j \<in> set (take (nat k) (orderInds evals))"
  shows "invEvals evals k ! j = 0"
proof -
  from assms(2) have "j \<in> set (orderInds evals)" by (rule in_set_takeD)
  then have j: "j < length evals" by (simp add: set_orderInds)
  have "distinct (take (nat k) (orderInds evals) @ drop (nat k) (orderInds evals))"
    by (simp add: distinct_orderInds)
  with assms(2) have "j \<notin> set (drop (nat k) (orderInds evals))"
    by (auto simp only: distinct_append)
  with assms(1) j show ?thesis by (simp add: invEvals_nth slice_from_def)
qed

lemma invEvals_nongauge:
  assumes "0 \<le> k" "j \<in> set (drop (nat k) (orderInds evals))"
  shows "invEvals evals k ! j = 1 / evals ! j"
proof -
  from assms(2) have "j \<in> set (orderInds evals)" by (rule in_set_dropD)
  then have j: "j < length evals" by (simp add: set_orderInds)
  with assms show ?thesis by (simp add: invEvals_nth slice_from_def)
qed

text \<open>The entries of \<open>U diag(v) U\<^sup>T\<close>.\<close>

lemma reconstruct:
  assumes Um: "square n Um" and v: "length v = n"
  shows "bind (dot (diag v) (transpose Um)) (dot Um)
         = Inr (mat_of n (\<lambda>i j. \<Sum>k<n. Um ! i ! k * v ! k * Um ! j ! k))"
proof -
  have t: "transpose Um = mat_of n (\<lambda>i j. Um ! j ! i)" by (rule transpose_square[OF Um])
  have d: "diag v = mat_of n (\<lambda>i j. if i = j then v ! i else 0)" by (rule diag_mat_of[OF v])
  have 1: "dot (diag v) (transpose Um) = Inr (mat_of n (\<lambda>k j. v ! k * Um ! j ! k))"
    unfolding t d
    by (subst dot_square[of n]) (auto intro!: mat_of_cong simp: if_distrib[of "\<lambda>x. x * _"] sum.delta' cong: if_cong)
  have 2: "dot Um (mat_of n (\<lambda>k j. v ! k * Um ! j ! k))
           = Inr (mat_of n (\<lambda>i j. \<Sum>k<n. Um ! i ! k * v ! k * Um ! j ! k))"
    by (subst dot_square[OF Um]) (auto intro!: mat_of_cong sum.cong simp: mult.assoc)
  show ?thesis by (simp add: 1 2)
qed

lemma profLCI_list_ok:
  "\<forall>k\<in>set ks. k < length A \<and> k < length (A ! k) \<Longrightarrow> \<exists>lci. profLCI_list A ks = Inr lci"
  by (induction ks) (auto simp: diag_entry_def)

lemma mat_of_eqD: "mat_of n f = mat_of n h \<Longrightarrow> i < n \<Longrightarrow> j < n \<Longrightarrow> f i j = h i j"
  by (metis mat_of_nth)

lemma orthonormal_sum:
  assumes Um: "square n Um" and orth: "dot (transpose Um) Um = Inr (diag (replicate n 1))"
      and a: "a < n" and b: "b < n"
  shows "(\<Sum>j<n. Um ! j ! a * Um ! j ! b) = (if a = b then 1 else 0)"
proof -
  have t: "transpose Um = mat_of n (\<lambda>i j. Um ! j ! i)" by (rule transpose_square[OF Um])
  have "dot (transpose Um) Um = Inr (mat_of n (\<lambda>a b. \<Sum>k<n. Um ! k ! a * Um ! k ! b))"
    unfolding t by (subst dot_square[OF _ Um]) (auto intro!: mat_of_cong)
  moreover have "diag (replicate n (1::real)) = mat_of n (\<lambda>i j. if i = j then 1 else 0)"
    by (subst diag_mat_of[of _ n]) (auto intro!: mat_of_cong)
  ultimately have "mat_of n (\<lambda>a b. \<Sum>k<n. Um ! k ! a * Um ! k ! b)
                   = mat_of n (\<lambda>i j. if i = j then 1 else 0)"
    using orth by simp
  from mat_of_eqD[OF this a b] show ?thesis .
qed

lemma column_square: "square n A \<Longrightarrow> column A c = map (\<lambda>j. A ! j ! c) [0..<n]"
  unfolding column_def by (rule nth_equalityI) (auto simp: square_def)

lemma eigen_direction:
  assumes Um: "square n Um" and v: "length v = n"
      and orth: "dot (transpose Um) Um = Inr (diag (replicate n 1))" and c: "c < n"
  shows "dot_mv (mat_of n (\<lambda>i j. \<Sum>k<n. Um ! i ! k * v ! k * Um ! j ! k)) (column Um c)
         = Inr (map (\<lambda>x. v ! c * x) (column Um c))"
proof -
  have col: "column Um c = map (\<lambda>j. Um ! j ! c) [0..<n]" by (rule column_square[OF Um])
  have "(\<Sum>j<n. (\<Sum>k<n. Um ! i ! k * v ! k * Um ! j ! k) * Um ! j ! c) = v ! c * Um ! i ! c"
    if i: "i < n" for i
  proof -
    have "(\<Sum>j<n. (\<Sum>k<n. Um ! i ! k * v ! k * Um ! j ! k) * Um ! j ! c)
          = (\<Sum>j<n. \<Sum>k<n. Um ! i ! k * v ! k * (Um ! j ! k * Um ! j ! c))"
      by (simp add: sum_distrib_right mult.assoc)
    also have "\<dots> = (\<Sum>k<n. \<Sum>j<n. Um ! i ! k * v ! k * (Um ! j ! k * Um ! j ! c))"
      by (rule sum.swap)
    also have "\<dots> = (\<Sum>k<n. Um ! i ! k * v ! k * (\<Sum>j<n. Um ! j ! k * Um ! j ! c))"
      by (simp add: sum_distrib_left)
    also have "\<dots> = (\<Sum>k<n. Um ! i ! k * v ! k * (if k = c then 1 else 0))"
      by (rule sum.cong) (simp_all add: orthonormal_sum[OF Um orth _ c])
    also have "\<dots> = (\<Sum>k<n. if k = c then Um ! i ! c * v ! c else 0)"
      by (rule sum.cong) simp_all
    also have "\<dots> = Um ! i ! c * v ! c"
      using c by (simp add: sum.delta)
    finally show ?thesis by (simp add: mult.commute)
  qed
  moreover have "(\<Sum>j<n. mat_of n (\<lambda>i j. \<Sum>k<n. Um ! i ! k * v ! k * Um ! j ! k) ! i ! j
                        * map (\<lambda>j. Um ! j ! c) [0..<n] ! j)
                 = (\<Sum>j<n. (\<Sum>k<n. Um ! i ! k * v ! k * Um ! j ! k) * Um ! j ! c)"
    if i: "i < n" for i
    by (rule sum.cong) (use i in simp_all)
  ultimately have "map (\<lambda>i. \<Sum>j<n. mat_of n (\<lambda>i j. \<Sum>k<n. Um ! i ! k * v ! k * Um ! j ! k) ! i ! j * column Um c ! j) [0..<n]
        = map (\<lambda>x. v ! c * x) (column Um c)"
    unfolding col by (intro nth_equalityI) simp_all
  then show ?thesis
    by (subst dot_mv_square[of n]) (simp_all add: col)
qed

lemma init_calibrate_ok:
  assumes lvl: "0 < lvl" "lvl < 100"
      and close: "isclose (chi2_ppf prov (lvl / 100) 1) ((- norm_ppf prov ((1 - lvl / 100) / 2)) ^ 2)"
      and e: "eigh prov (divide_scalar PH (chi2_ppf prov (lvl / 100) 1)) = Inr (evals, Um)"
      and sq: "square (length evals) Um"
  shows "\<exists>r. init_calibrate prov offs g PH lvl fl nNon nG evs0 =
           (Inr r, (if lvl < 1 then evs0 @ [UserWarning lvl] else evs0)
                     @ [EighCall (divide_scalar PH (chi2_ppf prov (lvl / 100) 1))])"
proof -
  let ?n = "length evals"
  let ?M = "mat_of ?n (\<lambda>i j. \<Sum>k<?n. Um ! i ! k * invEvals evals nG ! k * Um ! j ! k)"
  from reconstruct[OF sq length_invEvals, of nG] obtain DU where
    d1: "dot (diag (invEvals evals nG)) (transpose Um) = Inr DU" and d2: "dot Um DU = Inr ?M"
    by (auto simp: bind_Inr_iff)
  have "\<forall>k\<in>set [0..<?n]. k < length ?M \<and> k < length (?M ! k)"
    by (simp add: mat_of_def)
  from profLCI_list_ok[OF this] obtain lci where l: "profLCI_list ?M [0..<?n] = Inr lci" ..
  show ?thesis
    using lvl close e d1 d2 l by (simp add: init_calibrate_def Let_def)
qed

lemma zero_entry_zeros: "p < nParams \<Longrightarrow> zero_entry (zeros_grad nParams f0) p"
  by (cases f0) (simp_all add: zero_entry_def zeros_grad_def list_all_iff)

lemma nparams_zeros [simp]: "nparams_grad (zeros_grad nParams f0) = nParams"
  by (cases f0) (simp_all add: nparams_grad_def zeros_grad_def)

lemma set_grad_Inr:
  assumes "set_grad gradF idx f1 f0 eps = Inr gradF1"
  shows "nparams_grad gradF1 = nparams_grad gradF \<and> idx < nparams_grad gradF \<and>
         (\<forall>p. p \<noteq> idx \<longrightarrow> zero_entry gradF1 p = zero_entry gradF p)"
  using assms
  by (cases gradF; cases f1; cases f0)
     (auto simp: set_grad_def nparams_grad_def zero_entry_def split: if_splits)

lemma gate_loop_Inr:
  "gate_loop cls fnOfGate G0 eps gateObj gateVec0 gpo f0 is gradF s lg = (Inr gradF1, s1, lg1) \<Longrightarrow>
   nparams_grad gradF1 = nparams_grad gradF \<and>
   (\<forall>p. p \<notin> (\<lambda>i. gpo + i) ` set is \<longrightarrow> zero_entry gradF1 p = zero_entry gradF p)"
proof (induction "is" arbitrary: gradF s lg)
  case Nil
  then show ?case by simp
next
  case (Cons i "is")
  from Cons.prems obtain g' s' lg' where
    sg: "set_grad gradF (gpo + i)
           (fnOfGate (gate_matrix cls (gate_at (put_gate s gateObj
              (gate_from_vector cls (gate_at s gateObj) (gateVec0[i := gateVec0 ! i + eps]) G0)) gateObj)))
           f0 eps = Inr g'"
    and rest: "gate_loop cls fnOfGate G0 eps gateObj gateVec0 gpo f0 is g' s' lg' = (Inr gradF1, s1, lg1)"
    by (auto simp: Let_def split: if_splits sum.splits)
  from set_grad_Inr[OF sg] Cons.IH[OF rest] show ?case by auto
qed


lemma sequence_Inr:
  "sequence rs = Inr xs \<Longrightarrow> length xs = length rs \<and> (\<forall>i<length rs. rs ! i = Inr (xs ! i))"
proof (induction rs arbitrary: xs)
  case Nil
  then show ?case by simp
next
  case (Cons r rs)
  from Cons.prems obtain x xs' where "r = Inr x" "sequence rs = Inr xs'" "xs = x # xs'"
    by (auto simp: bind_Inr_iff)
  with Cons.IH[of xs'] show ?case by (auto simp: nth_Cons split: nat.splits)
qed

lemma concat_uniform:
  "\<forall>row\<in>set rows. length row = m \<Longrightarrow>
   length (concat rows) = length rows * m \<and>
   (\<forall>i<length rows. \<forall>j<m. concat rows ! (i * m + j) = rows ! i ! j)"
proof (induction rows)
  case Nil
  then show ?case by simp
next
  case (Cons row rows)
  then have IH: "length (concat rows) = length rows * m"
    "\<And>i j. i < length rows \<Longrightarrow> j < m \<Longrightarrow> concat rows ! (i * m + j) = rows ! i ! j"
    and row: "length row = m" by auto
  have "concat (row # rows) ! (i * m + j) = (row # rows) ! i ! j"
    if "i < length (row # rows)" "j < m" for i j
  proof (cases i)
    case 0
    with that row show ?thesis by (simp add: nth_append)
  next
    case (Suc i')
    with that row IH(2)[of i' j] show ?thesis by (simp add: nth_append add.assoc)
  qed
  with IH(1) row show ?case by simp
qed

lemma df_elements_unsupported:
  "2 < length shape \<Longrightarrow>
   df_elements hw shape =
     Inl (ValueError (''Unsupported number of dimensions returned by fnOfGate or fnOfGateset: ''
                      @ str_nat (length shape)))"
  by (auto simp: df_elements_def)

lemma preserves_refl [simp]: "preserves s s"
  by (simp add: preserves_def)

lemma preserves_put_gate:
  "preserves s0 s \<Longrightarrow> next_gate s0 \<le> a \<Longrightarrow> preserves s0 (put_gate s a g)"
  by (auto simp: preserves_def put_gate_def)

lemma preserves_put_gateset:
  "preserves s0 s \<Longrightarrow> next_gateset s0 \<le> a \<Longrightarrow> preserves s0 (put_gateset s a gs)"
  by (auto simp: preserves_def put_gateset_def)

lemma preserves_copy_gate:
  "preserves s0 s \<Longrightarrow> copy_gate s g = (a, s1) \<Longrightarrow> preserves s0 s1 \<and> next_gate s0 \<le> a"
  by (auto simp: preserves_def copy_gate_def)

lemma preserves_copy_gateset:
  "preserves s0 s \<Longrightarrow> copy_gateset s gs = (a, s1) \<Longrightarrow> preserves s0 s1 \<and> next_gateset s0 \<le> a"
  by (auto simp: preserves_def copy_gateset_def)

lemma gate_loop_preserves:
  "preserves s0 s \<Longrightarrow> next_gate s0 \<le> gateObj \<Longrightarrow>
   preserves s0 (fst (snd (gate_loop cls fnOfGate G0 eps gateObj gateVec0 gpo f0 is gradF s lg)))"
proof (induction "is" arbitrary: gradF s lg)
  case Nil
  then show ?case by simp
next
  case (Cons i "is")
  let ?s1 = "put_gate s gateObj (gate_from_vector cls (gate_at s gateObj) (gateVec0[i := gateVec0 ! i + eps]) G0)"
  have "preserves s0 ?s1" using Cons.prems by (intro preserves_put_gate)
  with Cons.IH[OF this Cons.prems(2)] Cons.prems(1) show ?case
    by (simp add: Let_def split: sum.splits)
qed

lemma gateset_loop_preserves:
  "preserves s0 s \<Longrightarrow> next_gateset s0 \<le> gsObj \<Longrightarrow>
   preserves s0 (fst (snd (gateset_loop cls fn fl eps gsObj v0 f0 is gradF s lg)))"
proof (induction "is" arbitrary: gradF s lg)
  case Nil
  then show ?case by simp
next
  case (Cons i "is")
  let ?s1 = "put_gateset s gsObj (from_vector cls (gateset_at s gsObj) (v0[i := v0 ! i + eps]) fl)"
  have "preserves s0 ?s1" using Cons.prems by (intro preserves_put_gateset)
  with Cons.IH[OF this Cons.prems(2)] Cons.prems(1) show ?case
    by (simp add: Let_def split: sum.splits)
qed

lemma spam_vec_loop_preserves:
  "preserves s0 s \<Longrightarrow> next_gateset s0 \<le> gsEps \<Longrightarrow>
   preserves s0 (fst (snd (spam_vec_loop cls fn setter eps gsEps v k m off f0 is gradF s lg)))"
proof (induction "is" arbitrary: gradF s lg)
  case Nil
  then show ?case by simp
next
  case (Cons i "is")
  let ?s1 = "put_gateset s gsEps (setter (gateset_at s gsEps) (v[m + i := v ! (m + i) + eps]) k)"
  have "preserves s0 ?s1" using Cons.prems by (intro preserves_put_gateset)
  with Cons.IH[OF this Cons.prems(2)] Cons.prems(1) show ?case
    by (simp add: Let_def split: sum.splits)
qed

lemma spam_loop_preserves:
  "preserves s0 s \<Longrightarrow> next_gateset s0 \<le> gsEps \<Longrightarrow>
   preserves s0 (fst (snd (spam_loop cls r fn setter prefix skip eps gsEps f0 kvs gradF s lg)))"
proof (induction kvs arbitrary: gradF s lg)
  case Nil
  then show ?case by simp
next
  case (Cons kv kvs)
  obtain k v where kv: "kv = (k, v)" by (cases kv)
  show ?case
  proof (cases "gateset_offsets r (prefix @ str_nat k)")
    case None
    with Cons.prems kv show ?thesis by (simp add: Let_def)
  next
    case (Some oe)
    obtain off oend where oe: "oe = (off, oend)" by (cases oe)
    let ?inner = "spam_vec_loop cls fn setter eps gsEps v k (if skip then 1 else 0) off f0
                    [0..<(if skip then length v - 1 else length v)] gradF s lg"
    obtain res s1 lg1 where inner: "?inner = (res, s1, lg1)" by (cases ?inner)
    have p1: "preserves s0 s1"
      using spam_vec_loop_preserves[OF Cons.prems, of cls fn setter eps v k "if skip then 1 else 0" off f0
          "[0..<(if skip then length v - 1 else length v)]" gradF lg] inner by simp
    show ?thesis
    proof (cases res)
      case (Inl e)
      with kv Some oe inner p1 show ?thesis by (simp add: Let_def)
    next
      case (Inr g1)
      have "preserves s0 (put_gateset s1 gsEps (setter (gateset_at s1 gsEps) v k))"
        using p1 Cons.prems(2) by (rule preserves_put_gateset)
      from Cons.IH[OF this Cons.prems(2)] kv Some oe inner Inr show ?thesis
        by (simp add: Let_def)
    qed
  qed
qed

lemma kind_ok_zeros: "kind_ok f0 (zeros_grad n f0)"
  by (cases f0) (simp_all add: kind_ok_def zeros_grad_def list_all_iff)

lemma set_grad_kind:
  "set_grad gradF idx f1 f0 eps = Inr gradF1 \<Longrightarrow> kind_ok f0 gradF \<Longrightarrow> kind_ok f0 gradF1"
  by (cases gradF; cases f1; cases f0)
     (auto simp: set_grad_def kind_ok_def list_all_iff split: if_splits
           dest!: subsetD[OF set_update_subset_insert])

lemma gate_loop_kind:
  "gate_loop cls fnOfGate G0 eps gateObj gateVec0 gpo f0 is gradF s lg = (Inr gradF1, s1, lg1) \<Longrightarrow>
   kind_ok f0 gradF \<Longrightarrow> kind_ok f0 gradF1"
proof (induction "is" arbitrary: gradF s lg)
  case Nil
  then show ?case by simp
next
  case (Cons i "is")
  from Cons.prems(1) obtain g' s' lg' where
    sg: "set_grad gradF (gpo + i)
           (fnOfGate (gate_matrix cls (gate_at (put_gate s gateObj
              (gate_from_vector cls (gate_at s gateObj) (gateVec0[i := gateVec0 ! i + eps]) G0)) gateObj)))
           f0 eps = Inr g'"
    and rest: "gate_loop cls fnOfGate G0 eps gateObj gateVec0 gpo f0 is g' s' lg' = (Inr gradF1, s1, lg1)"
    by (auto simp: Let_def split: if_splits sum.splits)
  from Cons.IH[OF rest set_grad_kind[OF sg Cons.prems(2)]] show ?case .
qed

lemma gateset_loop_kind:
  "gateset_loop cls fn fl eps gsObj v0 f0 is gradF s lg = (Inr gradF1, s1, lg1) \<Longrightarrow>
   kind_ok f0 gradF \<Longrightarrow> kind_ok f0 gradF1"
proof (induction "is" arbitrary: gradF s lg)
  case Nil
  then show ?case by simp
next
  case (Cons i "is")
  from Cons.prems(1) obtain g' s' lg' where
    sg: "set_grad gradF i
           (fn (gateset_at (put_gateset s gsObj
              (from_vector cls (gateset_at s gsObj) (v0[i := v0 ! i + eps]) fl)) gsObj)) f0 eps = Inr g'"
    and rest: "gateset_loop cls fn fl eps gsObj v0 f0 is g' s' lg' = (Inr gradF1, s1, lg1)"
    by (auto simp: Let_def split: if_splits sum.splits)
  from Cons.IH[OF rest set_grad_kind[OF sg Cons.prems(2)]] show ?case .
qed

lemma spam_vec_loop_kind:
  "spam_vec_loop cls fn setter eps gsEps v k m off f0 is gradF s lg = (Inr gradF1, s1, lg1) \<Longrightarrow>
   kind_ok f0 gradF \<Longrightarrow> kind_ok f0 gradF1"
proof (induction "is" arbitrary: gradF s lg)
  case Nil
  then show ?case by simp
next
  case (Cons i "is")
  let ?s1 = "put_gateset s gsEps (setter (gateset_at s gsEps) (v[m + i := v ! (m + i) + eps]) k)"
  from Cons.prems(1) obtain g' s' lg' where
    sg: "set_grad gradF (off + i)
           (fn (get_rhovecs cls (gateset_at ?s1 gsEps)) (get_evecs cls (gateset_at ?s1 gsEps))) f0 eps = Inr g'"
    and rest: "spam_vec_loop cls fn setter eps gsEps v k m off f0 is g' s' lg' = (Inr gradF1, s1, lg1)"
    by (auto simp: Let_def split: if_splits sum.splits)
  from Cons.IH[OF rest set_grad_kind[OF sg Cons.prems(2)]] show ?case .
qed

lemma spam_loop_kind:
  "spam_loop cls r fn setter prefix skip eps gsEps f0 kvs gradF s lg = (Inr gradF1, s1, lg1) \<Longrightarrow>
   kind_ok f0 gradF \<Longrightarrow> kind_ok f0 gradF1"
proof (induction kvs arbitrary: gradF s lg)
  case Nil
  then show ?case by simp
next
  case (Cons kv kvs)
  obtain k v where kv: "kv = (k, v)" by (cases kv)
  from Cons.prems(1) kv obtain off oend g' s' lg' where
    inner: "spam_vec_loop cls fn setter eps gsEps v k (if skip then 1 else 0) off f0
              [0..<(if skip then length v - 1 else length v)] gradF s lg = (Inr g', s', lg')"
    and rest: "spam_loop cls r fn setter prefix skip eps gsEps f0 kvs g'
                 (put_gateset s' gsEps (setter (gateset_at s' gsEps) v k)) lg' = (Inr gradF1, s1, lg1)"
    by (auto simp: Let_def split: option.splits prod.splits sum.splits)
  from Cons.IH[OF rest spam_vec_loop_kind[OF inner Cons.prems(2)]] show ?case .
qed

lemma gate_fn_gradF_kind:
  assumes "gate_fn_gradF cls r s fnOfGate gateLabel eps = (Inr (gradF, f0), s1, lg)"
  shows "kind_ok f0 gradF"
  using assms
  by (auto simp: gate_fn_gradF_def Let_def kind_ok_zeros
      split: prod.splits option.splits if_splits sum.splits dest: gate_loop_kind[OF _ kind_ok_zeros])

lemma sum_list_upt: "sum_list (map f [0..<n]) = (\<Sum>i<n. f i :: real)"
  by (simp add: interv_sum_list_conv_sum_set_nat atLeast0LessThan)

lemma halfwidth_spec:
  assumes sq: "square n A" and g: "length g = n"
  shows "halfwidth A g = Inr (spec_halfwidth A g)"
proof -
  have 1: "dot_mv A g = Inr (map (\<lambda>i. \<Sum>k<n. A ! i ! k * g ! k) [0..<n])"
    by (rule dot_mv_square[OF sq g])
  have 2: "dot_vv g (map (\<lambda>i. \<Sum>k<n. A ! i ! k * g ! k) [0..<n])
           = Inr (\<Sum>i<n. g ! i * (\<Sum>k<n. A ! i ! k * g ! k))"
  proof -
    have "sum_list (map2 (*) g (map (\<lambda>i. \<Sum>k<n. A ! i ! k * g ! k) [0..<n]))
          = (\<Sum>i<n. g ! i * (map (\<lambda>i. \<Sum>k<n. A ! i ! k * g ! k) [0..<n] ! i))"
      by (rule sum_list_map2) (simp_all add: g)
    also have "\<dots> = (\<Sum>i<n. g ! i * (\<Sum>k<n. A ! i ! k * g ! k))"
      by (rule sum.cong) simp_all
    finally show ?thesis by (simp add: dot_vv_def g)
  qed
  have 3: "quad_form A g = (\<Sum>i<n. g ! i * (\<Sum>k<n. A ! i ! k * g ! k))"
    by (simp add: quad_form_def sum_list_upt g sum_distrib_left mult.assoc)
  show ?thesis by (simp add: halfwidth_def 1 2 3 spec_halfwidth_def)
qed

lemma halfwidth_complex_spec:
  assumes sq: "square n A" and g: "length g = n"
  shows "halfwidth_complex A g = Inr (spec_halfwidth_complex A g)"
  by (simp add: halfwidth_complex_def spec_halfwidth_complex_def
      halfwidth_spec[OF sq, of "map Re g"] halfwidth_spec[OF sq, of "map Im g"] g)

lemma rolled_ok:
  "list_all (\<lambda>row. length row = m) rows \<Longrightarrow> e < m \<Longrightarrow> rolled rows e = Inr (map (\<lambda>row. row ! e) rows)"
  by (auto simp: rolled_def list_all_iff)

lemma sequence_map_Inr:
  "\<forall>x\<in>set xs. h x = Inr (f x) \<Longrightarrow> sequence (map h xs) = Inr (map f xs)"
  by (induction xs) simp_all

lemma index_bound: "i < n \<Longrightarrow> j < m \<Longrightarrow> i * m + j < n * (m::nat)"
proof -
  assume i: "i < n" and j: "j < m"
  have "i * m + j < i * m + m" using j by simp
  also have "\<dots> = Suc i * m" by simp
  also have "\<dots> \<le> n * m" using i by (intro mult_le_mono1) simp
  finally show ?thesis .
qed

lemma concat_map_upt:
  "concat (map (\<lambda>i. map (\<lambda>j. f (i * m + j)) [0..<m]) [0..<n]) = map f [0..<n * m]"
proof (rule nth_equalityI)
  let ?rows = "map (\<lambda>i. map (\<lambda>j. f (i * m + j)) [0..<m]) [0..<n]"
  have u: "\<forall>row\<in>set ?rows. length row = m" by auto
  from concat_uniform[OF u] have len: "length (concat ?rows) = n * m"
    and nth: "\<And>i j. i < n \<Longrightarrow> j < m \<Longrightarrow> concat ?rows ! (i * m + j) = ?rows ! i ! j"
    by auto
  show "length (concat ?rows) = length (map f [0..<n * m])" using len by simp
  fix e assume "e < length (concat ?rows)"
  then have e: "e < n * m" using len by simp
  then have m: "0 < m" by (cases m) auto
  from e m have i: "e div m < n" by (simp add: less_mult_imp_div_less)
  from m have j: "e mod m < m" by simp
  have "concat ?rows ! (e div m * m + e mod m) = ?rows ! (e div m) ! (e mod m)"
    by (rule nth[OF i j])
  with i j e show "concat ?rows ! e = map f [0..<n * m] ! e" by simp
qed

lemma df_elements_eq:
  assumes le: "length shape \<le> 2" and hw: "\<forall>e<prod_list shape. hw e = Inr (f e)"
  shows "df_elements hw shape = Inr (map f [0..<prod_list shape])"
proof -
  consider "shape = []" | s0 where "shape = [s0]" | s0 s1 where "shape = [s0, s1]"
    using le by (cases shape; cases "tl shape"; cases "tl (tl shape)") auto
  then show ?thesis
  proof cases
    case 1
    with hw show ?thesis by (simp add: df_elements_def)
  next
    case 2
    with hw have "sequence (map hw [0..<s0]) = Inr (map f [0..<s0])"
      by (intro sequence_map_Inr) simp
    with 2 show ?thesis by (simp add: df_elements_def)
  next
    case 3
    have inner: "sequence (map (\<lambda>j. hw (i * s1 + j)) [0..<s1]) = Inr (map (\<lambda>j. f (i * s1 + j)) [0..<s1])"
      if "i < s0" for i
      using hw 3 that by (intro sequence_map_Inr) (simp add: index_bound)
    have "sequence (map (\<lambda>i. sequence (map (\<lambda>j. hw (i * s1 + j)) [0..<s1])) [0..<s0])
          = Inr (map (\<lambda>i. map (\<lambda>j. f (i * s1 + j)) [0..<s1]) [0..<s0])"
      by (intro sequence_map_Inr) (simp add: inner)
    with 3 show ?thesis by (simp add: df_elements_def concat_map_upt)
  qed
qed

text \<open>\<open>_compute_df_from_gradF\<close> on a real vector and on a complex matrix.\<close>

lemma ex_compute_real:
  "compute_df_from_gradF ex_region (GradReal [[0, 0], [1, 2]]) (FloatArr [2] [5, 7]) False
     = Inr (Df (FloatArr [2] [1 / 2, 1]))"
  by (simp add: compute_df_from_gradF_def df_elements_def upt_0_2 rolled_def halfwidth_def
      ex_region_def dot_mv_def dot_vv_def sqrt_quarter)

lemma ex_compute_complex:
  "compute_df_from_gradF ex_region (GradComplex [[0, 0], [Complex 2 0, Complex 0 4]])
       (ComplexArr [1, 2] [Complex 1 1, Complex 3 0]) True
     = Inr (DfF0 (ComplexArr [1, 2] [Complex 1 0, Complex 0 2])
                 (ComplexArr [1, 2] [Complex 1 1, Complex 3 0]))"
  by (simp add: compute_df_from_gradF_def df_elements_def upt_0_2 rolled_def halfwidth_complex_def
      halfwidth_def ex_region_def dot_mv_def dot_vv_def numeral_2_eq_2)

lemma ex_gate_fn_gradF:
  "gate_fn_gradF ex_classes ex_region ex_store ex_fnOfGate ''Gx'' (1 / 2)
     = (Inr (GradFloat [1, 0], PyFloat 1), put_gate (snd (copy_gate ex_store [1])) 0 [3 / 2],
        [[[1]], [[3 / 2]]])"
  by (simp add: gate_fn_gradF_def ex_region_def ex_flags_def ex_classes_def ex_store_def Let_def
      copy_gate_def put_gate_def ex_fnOfGate_def zeros_grad_def gate_is_parameterized_def
      set_grad_def numeral_2_eq_2)

lemma str_nat_3: "str_nat (Suc (Suc (Suc 0))) = ''3''"
  by code_simp

subsection \<open>The constructor\<close>

text \<open>
  C1.  For every region that the constructor returns (with the rank of the projector
  at most the size of the Hessian, so that \<open>nGaugeParams\<close> is not negative): the stored
  inverse form is \<open>U diag(invEvals) U\<^sup>T\<close> for the eigenvalues and \<open>U\<close> that \<open>eigh\<close> returned
  for \<open>Q\<close>; \<open>orderInds\<close> lists every index once, by ascending absolute value of its
  eigenvalue; the inverse of each of the first \<open>nGaugeParams\<close> eigenvalues in that order is
  \<open>0\<close>, of each other one \<open>1 / eval\<close> (for an eigenvalue \<open>0\<close> numpy's \<open>1 / eval\<close> is \<open>inf\<close>, which
  is not a real number); and when the columns of \<open>U\<close> are orthonormal and no eigenvalue
  that is inverted is \<open>0\<close>, each column is an eigenvector of the inverse form for its
  inverse eigenvalue, which is \<open>0\<close> along the gauge directions.
\<close>

theorem invQ_pseudo_inverse:
  assumes ok: "init cls prov s g H lvl fl mode = (Inr r, evs)"
      and k: "0 \<le> nGaugeParams r"
  shows "\<exists>evals.
     eigh prov (regionQuadcForm r) = Inr (evals, U r) \<and>
     bind (dot (diag (invEvals evals (nGaugeParams r))) (transpose (U r))) (dot (U r))
       = Inr (invRegionQuadcForm r) \<and>
     set (orderInds evals) = {0..<length evals} \<and> distinct (orderInds evals) \<and>
     sorted (map (\<lambda>i. \<bar>evals ! i\<bar>) (orderInds evals)) \<and>
     length (invEvals evals (nGaugeParams r)) = length evals \<and>
     (\<forall>i\<in>set (take (nat (nGaugeParams r)) (orderInds evals)).
        invEvals evals (nGaugeParams r) ! i = 0) \<and>
     (\<forall>i\<in>set (drop (nat (nGaugeParams r)) (orderInds evals)).
        evals ! i \<noteq> 0 \<longrightarrow> invEvals evals (nGaugeParams r) ! i = 1 / evals ! i) \<and>
     (square (length evals) (U r) \<and>
      dot (transpose (U r)) (U r) = Inr (diag (replicate (length evals) 1)) \<and>
      (\<forall>i\<in>set (drop (nat (nGaugeParams r)) (orderInds evals)). evals ! i \<noteq> 0) \<longrightarrow>
        (\<forall>i<length evals.
           dot_mv (invRegionQuadcForm r) (column (U r) i)
             = Inr (map (\<lambda>x. invEvals evals (nGaugeParams r) ! i * x) (column (U r) i))) \<and>
        (\<forall>i\<in>set (take (nat (nGaugeParams r)) (orderInds evals)).
           dot_mv (invRegionQuadcForm r) (column (U r) i) = Inr (replicate (length evals) 0)))"
proof -
  from init_Inr[OF ok] obtain PH evs0 nNon nG offs where
    cal: "init_calibrate prov offs g PH lvl fl nNon nG evs0 = (Inr r, evs)" by blast
  from init_calibrate_Inr[OF cal] obtain evals :: vec and DU where
    e: "eigh prov (regionQuadcForm r) = Inr (evals, U r)"
    and d1: "dot (diag (invEvals evals nG)) (transpose (U r)) = Inr DU"
    and d2: "dot (U r) DU = Inr (invRegionQuadcForm r)"
    and ng: "nGaugeParams r = nG"
    by blast
  let ?inv = "invEvals evals (nGaugeParams r)"
  let ?n = "length evals"
  have rec: "bind (dot (diag ?inv) (transpose (U r))) (dot (U r)) = Inr (invRegionQuadcForm r)"
    using d1 d2 ng by simp
  have eig: "dot_mv (invRegionQuadcForm r) (column (U r) i) = Inr (map (\<lambda>x. ?inv ! i * x) (column (U r) i))"
    if sq: "square ?n (U r)" and orth: "dot (transpose (U r)) (U r) = Inr (diag (replicate ?n 1))"
      and i: "i < ?n" for i
  proof -
    from reconstruct[OF sq length_invEvals] rec
    have "invRegionQuadcForm r = mat_of ?n (\<lambda>i j. \<Sum>k<?n. U r ! i ! k * ?inv ! k * U r ! j ! k)"
      by simp
    with eigen_direction[OF sq length_invEvals orth i] show ?thesis by simp
  qed
  have eig0: "dot_mv (invRegionQuadcForm r) (column (U r) i) = Inr (replicate ?n 0)"
    if sq: "square ?n (U r)" and orth: "dot (transpose (U r)) (U r) = Inr (diag (replicate ?n 1))"
      and i: "i \<in> set (take (nat (nGaugeParams r)) (orderInds evals))" for i
  proof -
    from i have "i \<in> set (orderInds evals)" by (rule in_set_takeD)
    then have "i < ?n" by (simp add: set_orderInds)
    from eig[OF sq orth this] invEvals_gauge[OF k i]
    have "dot_mv (invRegionQuadcForm r) (column (U r) i) = Inr (map (\<lambda>x. 0) (column (U r) i))"
      by simp
    also have "map (\<lambda>x. 0::real) (column (U r) i) = replicate ?n 0"
      using sq by (simp add: column_def map_replicate_const square_def)
    finally show ?thesis .
  qed
  show ?thesis
    apply (rule exI[of _ evals])
    using e rec set_orderInds distinct_orderInds sorted_orderInds length_invEvals
      invEvals_gauge[OF k] invEvals_nongauge[OF k] eig eig0
    by blast
qed

theorem invQ_pseudo_inverse_witness:
  "init ex_classes ex_providers ex_store 0 ex_hessian 95 ex_flags ''std''
     = (Inr ex_region, [EighCall [[0, 0], [0, 4]]]) \<and>
   0 \<le> nGaugeParams ex_region \<and>
   eigh ex_providers (regionQuadcForm ex_region) = Inr ([0, 4], U ex_region) \<and>
   invEvals [0, 4] (nGaugeParams ex_region) = [0, 1 / 4] \<and>
   dot_mv (invRegionQuadcForm ex_region) (column (U ex_region) 0) = Inr [0, 0]"
proof -
  have h: "0 \<le> nGaugeParams ex_region"
    by (simp add: ex_region_def)
  have e: "eigh ex_providers (regionQuadcForm ex_region) = Inr ([0, 4], U ex_region)"
    by (simp add: ex_region_def ex_providers_def upt_0_2)
  have i: "invEvals [0, 4] (nGaugeParams ex_region) = [0, 1 / 4]"
    by (simp add: ex_region_def ex_invEvals)
  have sq: "square (length [0, 4 :: real]) (U ex_region)"
    by (simp add: square_def ex_region_def)
  have orth: "dot (transpose (U ex_region)) (U ex_region) = Inr (diag (replicate (length [0, 4 :: real]) 1))"
    by (simp add: ex_region_def transpose_2x2 dot_def diag_def upt_0_2)
  have g: "0 \<in> set (take (nat (nGaugeParams ex_region)) (orderInds [0, 4]))"
    by (simp add: ex_region_def ex_orderInds)
  from invQ_pseudo_inverse [OF ex_init_std h] obtain evals where
    e': "eigh ex_providers (regionQuadcForm ex_region) = Inr (evals, U ex_region)"
    and z: "square (length evals) (U ex_region) \<and>
      dot (transpose (U ex_region)) (U ex_region) = Inr (diag (replicate (length evals) 1)) \<and>
      (\<forall>i\<in>set (drop (nat (nGaugeParams ex_region)) (orderInds evals)). evals ! i \<noteq> 0) \<longrightarrow>
        (\<forall>i\<in>set (take (nat (nGaugeParams ex_region)) (orderInds evals)).
           dot_mv (invRegionQuadcForm ex_region) (column (U ex_region) i) = Inr (replicate (length evals) 0))"
    by blast
  have nz: "\<forall>i\<in>set (drop (nat (nGaugeParams ex_region)) (orderInds [0, 4])). [0, 4 :: real] ! i \<noteq> 0"
    by (simp add: ex_region_def ex_orderInds)
  from e e' have "evals = [0, 4]" by simp
  with z sq orth g nz
  have "dot_mv (invRegionQuadcForm ex_region) (column (U ex_region) 0) = Inr (replicate (length [0, 4 :: real]) 0)"
    by blast
  then have "dot_mv (invRegionQuadcForm ex_region) (column (U ex_region) 0) = Inr [0, 0]"
    by (simp add: numeral_2_eq_2)
  with ex_init_std h e i show ?thesis by blast
qed

text \<open>
  C2.  Every region that the constructor returns was built at a level in \<open>(0, 100)\<close>, with
  the check of line 98 passed (\<open>C1\<close> is close to the square of \<open>seScaleFctr\<close>), and stores
  \<open>Q = projected_hessian / C1\<close> and \<open>intervalScaling = sqrt (Ck / C1)\<close>, where \<open>C1\<close> and \<open>Ck\<close>
  are the chi-squared quantiles at \<open>level / 100\<close> with \<open>1\<close> and \<open>nNonGaugeParams\<close> degrees of
  freedom.
\<close>

theorem init_calibration:
  assumes "init cls prov s g H lvl fl mode = (Inr r, evs)"
  shows "0 < lvl \<and> lvl < 100 \<and>
         isclose (chi2_ppf prov (lvl / 100) 1) ((- norm_ppf prov ((1 - lvl / 100) / 2)) ^ 2) \<and>
         nNonGaugeParams r = matrix_rank prov (get_nongauge_projector cls (gateset_at s g) fl) (P_RANK_TOL prov) \<and>
         (\<exists>projected_hessian evs0.
            project_hessian cls prov s g H (nNonGaugeParams r) (nGaugeParams r) fl lvl mode
              = (Inr projected_hessian, evs0) \<and>
            regionQuadcForm r = divide_scalar projected_hessian (chi2_ppf prov (lvl / 100) 1)) \<and>
         intervalScaling r =
           sqrt (chi2_ppf prov (lvl / 100) (nNonGaugeParams r) / chi2_ppf prov (lvl / 100) 1)"
proof -
  from init_Inr[OF assms] obtain PH evs0 where
    ph: "project_hessian cls prov s g H
             (matrix_rank prov (get_nongauge_projector cls (gateset_at s g) fl) (P_RANK_TOL prov))
             (int (length H) - int (matrix_rank prov (get_nongauge_projector cls (gateset_at s g) fl) (P_RANK_TOL prov)))
             fl lvl mode = (Inr PH, evs0)"
    and cal: "init_calibrate prov (get_vector_offsets cls (gateset_at s g) fl) g PH lvl fl
             (matrix_rank prov (get_nongauge_projector cls (gateset_at s g) fl) (P_RANK_TOL prov))
             (int (length H) - int (matrix_rank prov (get_nongauge_projector cls (gateset_at s g) fl) (P_RANK_TOL prov)))
             evs0 = (Inr r, evs)"
    by blast
  note c = init_calibrate_Inr[OF cal]
  from c have n: "nNonGaugeParams r = matrix_rank prov (get_nongauge_projector cls (gateset_at s g) fl) (P_RANK_TOL prov)"
    and ng: "nGaugeParams r = int (length H) - int (matrix_rank prov (get_nongauge_projector cls (gateset_at s g) fl) (P_RANK_TOL prov))"
    and q: "regionQuadcForm r = divide_scalar PH (chi2_ppf prov (lvl / 100) 1)"
    by simp_all
  from ph n ng q have "\<exists>projected_hessian evs0.
            project_hessian cls prov s g H (nNonGaugeParams r) (nGaugeParams r) fl lvl mode
              = (Inr projected_hessian, evs0) \<and>
            regionQuadcForm r = divide_scalar projected_hessian (chi2_ppf prov (lvl / 100) 1)"
    by auto
  with c n show ?thesis by simp
qed

theorem init_calibration_witness:
  "init ex_classes ex_providers ex_store 0 ex_hessian 95 ex_flags ''std''
     = (Inr ex_region, [EighCall [[0, 0], [0, 4]]]) \<and>
   isclose (chi2_ppf ex_providers (95 / 100) 1) ((- norm_ppf ex_providers ((1 - 95 / 100) / 2)) ^ 2) \<and>
   intervalScaling ex_region
     = sqrt (chi2_ppf ex_providers (95 / 100) (nNonGaugeParams ex_region) / chi2_ppf ex_providers (95 / 100) 1) \<and>
   regionQuadcForm ex_region = [[0, 0], [0, 4]]"
proof -
  have q: "regionQuadcForm ex_region = [[0, 0], [0, 4]]"
    by (simp add: ex_region_def)
  from init_calibration [OF ex_init_std] ex_init_std q show ?thesis by blast
qed

text \<open>
  C3.  For every region that the constructor returns, where \<open>eigh\<close> has returned one
  eigenvalue for each row of the Hessian, the quantile \<open>C1\<close> is not \<open>0\<close> and no eigenvalue that
  is inverted is \<open>0\<close> (so that \<open>Q\<close> and the inverse form are numbers, without \<open>inf\<close> and \<open>nan\<close>):
  \<open>profLCI\<close> has one entry for each parameter, \<open>profLCI[k] = sqrt(abs(invQ[k,k]))\<close> for every
  parameter index \<open>k\<close>; \<open>get_profile_likelihood_confidence_intervals\<close> returns this vector
  for no label and its slice between the offsets of a label, and no entry of a vector
  that it returns is negative.
\<close>

theorem profLCI_sqrt_diag:
  assumes ok: "init cls prov s g H lvl fl mode = (Inr r, evs)"
      and e: "eigh prov (regionQuadcForm r) = Inr (evals, Um)"
      and len: "length evals = length H"
      and c1: "chi2_ppf prov (lvl / 100) 1 \<noteq> 0"
      and nz: "\<forall>i\<in>set (slice_from (orderInds evals) (nGaugeParams r)). evals ! i \<noteq> 0"
  shows "length (profLCI r) = length H \<and>
         (\<forall>k<length H.
            k < length (invRegionQuadcForm r) \<and> k < length (invRegionQuadcForm r ! k) \<and>
            profLCI r ! k = sqrt \<bar>invRegionQuadcForm r ! k ! k\<bar>) \<and>
         get_profile_likelihood_confidence_intervals r None = Inr (profLCI r) \<and>
         (\<forall>label start end'.
            gateset_offsets r label = Some (start, end') \<longrightarrow>
            get_profile_likelihood_confidence_intervals r (Some label)
              = Inr (slice (profLCI r) start end')) \<and>
         (\<forall>label v. get_profile_likelihood_confidence_intervals r label = Inr v \<longrightarrow>
            (\<forall>x\<in>set v. 0 \<le> x))"
proof -
  from init_Inr[OF ok] obtain PH evs0 nNon nG offs where
    "init_calibrate prov offs g PH lvl fl nNon nG evs0 = (Inr r, evs)" by blast
  from init_calibrate_Inr[OF this] obtain evals' :: vec where
    e': "eigh prov (regionQuadcForm r) = Inr (evals', U r)"
    and lci: "profLCI_list (invRegionQuadcForm r) [0..<length evals'] = Inr (profLCI r)"
    by blast
  from e e' have "evals' = evals" by simp
  with lci len have lci: "profLCI_list (invRegionQuadcForm r) [0..<length H] = Inr (profLCI r)"
    by simp
  from profLCI_list_Inr[OF lci] have
    l: "length (profLCI r) = length H" and
    nth: "\<forall>i<length H. i < length (invRegionQuadcForm r) \<and> i < length (invRegionQuadcForm r ! i) \<and>
             profLCI r ! i = sqrt \<bar>invRegionQuadcForm r ! i ! i\<bar>"
    by auto
  have nonneg: "\<forall>x\<in>set (profLCI r). 0 \<le> x"
    using nth l by (auto simp: in_set_conv_nth)
  have "\<forall>x\<in>set v. 0 \<le> x" if "get_profile_likelihood_confidence_intervals r label = Inr v" for label v
  proof (cases label)
    case None
    with that nonneg show ?thesis
      by (simp add: get_profile_likelihood_confidence_intervals_def)
  next
    case (Some lab)
    with that obtain start end' where "v = slice (profLCI r) start end'"
      by (auto simp: get_profile_likelihood_confidence_intervals_def split: option.splits)
    then have "set v \<subseteq> set (profLCI r)"
      by (auto simp: slice_def dest: in_set_dropD in_set_takeD)
    with nonneg show ?thesis by blast
  qed
  with nth l show ?thesis
    by (simp add: get_profile_likelihood_confidence_intervals_def)
qed

theorem profLCI_sqrt_diag_witness:
  "init ex_classes ex_providers ex_store 0 ex_hessian 95 ex_flags ''std''
     = (Inr ex_region, [EighCall [[0, 0], [0, 4]]]) \<and>
   eigh ex_providers (regionQuadcForm ex_region) = Inr ([0, 4], [[1, 0], [0, 1]]) \<and>
   length [0, 4 :: real] = length ex_hessian \<and>
   chi2_ppf ex_providers (95 / 100) 1 \<noteq> 0 \<and>
   slice_from (orderInds [0, 4]) (nGaugeParams ex_region) = [1] \<and> [0, 4 :: real] ! 1 \<noteq> 0 \<and>
   length (profLCI ex_region) = length ex_hessian \<and>
   profLCI ex_region ! 1 = sqrt \<bar>invRegionQuadcForm ex_region ! 1 ! 1\<bar> \<and>
   get_profile_likelihood_confidence_intervals ex_region (Some ''rho0'') = Inr [1 / 2] \<and>
   (0::real) \<le> 1 / 2"
proof -
  have e: "eigh ex_providers (regionQuadcForm ex_region) = Inr ([0, 4], [[1, 0], [0, 1]])"
    by (simp add: ex_region_def ex_providers_def upt_0_2)
  have len: "length [0, 4 :: real] = length ex_hessian" by (simp add: ex_hessian_def)
  have c1: "chi2_ppf ex_providers (95 / 100) 1 \<noteq> 0" by (simp add: ex_providers_def)
  have sl: "slice_from (orderInds [0, 4]) (nGaugeParams ex_region) = [1]"
    by (simp add: ex_orderInds slice_from_def ex_region_def)
  have nz: "\<forall>i\<in>set (slice_from (orderInds [0, 4]) (nGaugeParams ex_region)). [0, 4 :: real] ! i \<noteq> 0"
    by (simp add: sl)
  have k: "1 < length ex_hessian" by (simp add: ex_hessian_def)
  have v: "get_profile_likelihood_confidence_intervals ex_region (Some ''rho0'') = Inr [1 / 2]"
    by (simp add: ex_region_def get_profile_likelihood_confidence_intervals_def slice_def)
  note t = profLCI_sqrt_diag [OF ex_init_std e len c1 nz]
  from t have l: "length (profLCI ex_region) = length ex_hessian" by blast
  from t k have p: "profLCI ex_region ! 1 = sqrt \<bar>invRegionQuadcForm ex_region ! 1 ! 1\<bar>"
    by blast
  from t v have "\<forall>x\<in>set [1 / 2 :: real]. 0 \<le> x"
    by blast
  then have "(0::real) \<le> 1 / 2" by simp
  with ex_init_std e len c1 sl l p v show ?thesis by simp
qed

text \<open>
  C4.  For a square Hessian \<open>H\<close> and the projector \<open>P\<close> of the gate set with \<open>P P = P\<close>:
  the constructor in the mode \<open>none\<close> on \<open>P H P\<close> and in the mode \<open>std\<close> on \<open>H\<close> gives the same
  outcome (the same region, so the same \<open>Q\<close> and inverse form, and the same events).
\<close>

theorem init_none_on_projected:
  assumes H: "square n H"
      and P: "P = get_nongauge_projector cls (gateset_at s g) fl"
      and PP: "dot P P = Inr P"
      and PHP: "bind (dot H P) (dot P) = Inr PHP"
  shows "init cls prov s g PHP lvl fl ''none'' = init cls prov s g H lvl fl ''std''"
proof -
  from PHP obtain HP where HP: "dot H P = Inr HP" and PHP': "dot P HP = Inr PHP"
    by (auto simp: bind_Inr_iff)
  have lenPHP: "length PHP = length P" using dot_length[OF PHP'] .
  have lenHP: "length HP = length H" using dot_length[OF HP] .
  have "length P = length H"
  proof (cases "P = []")
    case True
    with dot_rows[OF HP] H have "H = [] \<or> n = 0"
      by (cases H) (auto simp: square_def list_all_iff)
    with H True show ?thesis by (auto simp: square_def)
  next
    case False
    then obtain row where "row \<in> set P" by (cases P) auto
    with dot_rows[OF PP] dot_rows[OF PHP'] lenHP show ?thesis by auto
  qed
  with lenPHP have "length PHP = length H" by simp
  then show ?thesis
    using HP PHP' P by (simp add: init_def project_hessian_def Let_def)
qed

theorem init_none_on_projected_witness:
  "square 2 ex_hessian \<and>
   [[0, 0], [0, 1]] = get_nongauge_projector ex_classes (gateset_at ex_store 0) ex_flags \<and>
   dot [[0, 0], [0, 1]] [[0, 0], [0, 1]] = Inr [[0, 0], [0, 1]] \<and>
   bind (dot ex_hessian [[0, 0], [0, 1]]) (dot [[0, 0], [0, 1]]) = Inr [[0, 0], [0, 16]] \<and>
   init ex_classes ex_providers ex_store 0 [[0, 0], [0, 16]] 95 ex_flags ''none''
     = init ex_classes ex_providers ex_store 0 ex_hessian 95 ex_flags ''std''"
proof -
  have 1: "square 2 ex_hessian" by (simp add: square_def ex_hessian_def)
  have 2: "[[0, 0], [0, 1]] = get_nongauge_projector ex_classes (gateset_at ex_store 0) ex_flags"
    by (simp add: ex_classes_def)
  have 3: "dot [[0, 0], [0, 1]] [[0, 0], [0, 1]] = Inr [[0, 0], [0, 1::real]]"
    by (simp add: dot_def transpose_2x2)
  have 4: "bind (dot ex_hessian [[0, 0], [0, 1]]) (dot [[0, 0], [0, 1]]) = Inr [[0, 0], [0, 16]]"
    by (simp add: dot_def transpose_2x2 ex_hessian_def)
  from init_none_on_projected [OF 1 2 3 4] 1 2 3 4 show ?thesis by simp
qed

text \<open>
  C9.  For a level outside \<open>(0, 100)\<close> the constructor fails in every mode: with the
  AssertionError of line 83 when the projection of the Hessian (lines 66 to 76) has
  returned, with no other events than those of the projection, and otherwise with the
  error of the projection (the ValueError of line 76 for an invalid mode).  So it is
  the AssertionError, before any event, in the mode \<open>none\<close> and in the mode \<open>std\<close> when the
  shapes fit; in the mode \<open>optimal gate CIs\<close> every evaluation of the objective function
  raises before it calls \<open>eigh\<close>.  For a level inside \<open>(0, 100)\<close>, in every mode: when the
  projection has returned, the check of line 98 passes and \<open>eigh\<close> returns a square \<open>U\<close> of
  the size of its eigenvalues, the constructor returns a region, and the warning is
  among its events exactly when the level is below \<open>1\<close>.
\<close>

theorem init_confidence_level:
  "(\<not> (0 < lvl \<and> lvl < 100) \<longrightarrow>
      init cls prov s g H lvl fl mode =
        (case project_hessian cls prov s g H
                (matrix_rank prov (get_nongauge_projector cls (gateset_at s g) fl) (P_RANK_TOL prov))
                (int (length H)
                   - int (matrix_rank prov (get_nongauge_projector cls (gateset_at s g) fl) (P_RANK_TOL prov)))
                fl lvl mode of
           (Inl e, evs) \<Rightarrow> (Inl e, evs)
         | (Inr projected_hessian, evs) \<Rightarrow> (Inl AssertionError, evs)) \<and>
      init cls prov s g H lvl fl ''none'' = (Inl AssertionError, []) \<and>
      (\<forall>HP PHP.
         dot H (get_nongauge_projector cls (gateset_at s g) fl) = Inr HP \<and>
         dot (get_nongauge_projector cls (gateset_at s g) fl) HP = Inr PHP \<longrightarrow>
         init cls prov s g H lvl fl ''std'' = (Inl AssertionError, [])) \<and>
      (\<forall>nNonGauge nGauge vectorM.
         \<exists>e. objective_func cls prov s g H nNonGauge nGauge fl lvl vectorM = (Inl e, []))) \<and>
   (0 < lvl \<and> lvl < 100 \<and>
    isclose (chi2_ppf prov (lvl / 100) 1) ((- norm_ppf prov ((1 - lvl / 100) / 2)) ^ 2) \<and>
    project_hessian cls prov s g H
      (matrix_rank prov (get_nongauge_projector cls (gateset_at s g) fl) (P_RANK_TOL prov))
      (int (length H)
         - int (matrix_rank prov (get_nongauge_projector cls (gateset_at s g) fl) (P_RANK_TOL prov)))
      fl lvl mode = (Inr projected_hessian, evs0) \<and>
    eigh prov (divide_scalar projected_hessian (chi2_ppf prov (lvl / 100) 1)) = Inr (evals, Um) \<and>
    square (length evals) Um \<longrightarrow>
      (\<exists>r. init cls prov s g H lvl fl mode =
         (Inr r, evs0 @ (if lvl < 1 then [UserWarning lvl] else [])
                   @ [EighCall (divide_scalar projected_hessian (chi2_ppf prov (lvl / 100) 1))])))"
proof (intro conjI impI)
  assume "\<not> (0 < lvl \<and> lvl < 100)"
  then show "init cls prov s g H lvl fl mode =
        (case project_hessian cls prov s g H
                (matrix_rank prov (get_nongauge_projector cls (gateset_at s g) fl) (P_RANK_TOL prov))
                (int (length H)
                   - int (matrix_rank prov (get_nongauge_projector cls (gateset_at s g) fl) (P_RANK_TOL prov)))
                fl lvl mode of
           (Inl e, evs) \<Rightarrow> (Inl e, evs)
         | (Inr projected_hessian, evs) \<Rightarrow> (Inl AssertionError, evs))"
    by (auto simp: init_def Let_def init_calibrate_def split: prod.splits sum.splits)
next
  assume "\<not> (0 < lvl \<and> lvl < 100)"
  then show "init cls prov s g H lvl fl ''none'' = (Inl AssertionError, [])"
    by (auto simp: init_def Let_def init_calibrate_def project_hessian_def)
next
  assume "\<not> (0 < lvl \<and> lvl < 100)"
  then show "\<forall>HP PHP.
         dot H (get_nongauge_projector cls (gateset_at s g) fl) = Inr HP \<and>
         dot (get_nongauge_projector cls (gateset_at s g) fl) HP = Inr PHP \<longrightarrow>
         init cls prov s g H lvl fl ''std'' = (Inl AssertionError, [])"
    by (auto simp: init_def Let_def init_calibrate_def project_hessian_def)
next
  assume a: "\<not> (0 < lvl \<and> lvl < 100)"
  show "\<forall>nNonGauge nGauge vectorM.
         \<exists>e. objective_func cls prov s g H nNonGauge nGauge fl lvl vectorM = (Inl e, [])"
  proof (intro allI)
    fix nNonGauge nGauge vectorM
    have n: "init_none cls prov s g PH lvl fl = (Inl AssertionError, [])" for PH
      using a by (auto simp: init_none_def Let_def init_calibrate_def)
    show "\<exists>e. objective_func cls prov s g H nNonGauge nGauge fl lvl vectorM = (Inl e, [])"
      by (cases "bind (reshape vectorM nNonGauge nGauge) (\<lambda>matM.
             let proj_extra = get_nongauge_projector_mix cls (gateset_at s g) matM fl in
             bind (dot H proj_extra) (\<lambda>HP. dot proj_extra HP))")
         (simp_all add: objective_func_def Let_def n)
  qed
next
  assume a: "0 < lvl \<and> lvl < 100 \<and>
    isclose (chi2_ppf prov (lvl / 100) 1) ((- norm_ppf prov ((1 - lvl / 100) / 2)) ^ 2) \<and>
    project_hessian cls prov s g H
      (matrix_rank prov (get_nongauge_projector cls (gateset_at s g) fl) (P_RANK_TOL prov))
      (int (length H)
         - int (matrix_rank prov (get_nongauge_projector cls (gateset_at s g) fl) (P_RANK_TOL prov)))
      fl lvl mode = (Inr projected_hessian, evs0) \<and>
    eigh prov (divide_scalar projected_hessian (chi2_ppf prov (lvl / 100) 1)) = Inr (evals, Um) \<and>
    square (length evals) Um"
  let ?offs = "get_vector_offsets cls (gateset_at s g) fl"
  let ?nNon = "matrix_rank prov (get_nongauge_projector cls (gateset_at s g) fl) (P_RANK_TOL prov)"
  from a init_calibrate_ok[of lvl prov projected_hessian evals Um ?offs g fl ?nNon
      "int (length H) - int ?nNon" evs0]
  obtain r where "init_calibrate prov ?offs g projected_hessian lvl fl ?nNon (int (length H) - int ?nNon) evs0 =
           (Inr r, (if lvl < 1 then evs0 @ [UserWarning lvl] else evs0)
                     @ [EighCall (divide_scalar projected_hessian (chi2_ppf prov (lvl / 100) 1))])"
    by auto
  with a have "init cls prov s g H lvl fl mode =
         (Inr r, evs0 @ (if lvl < 1 then [UserWarning lvl] else [])
                   @ [EighCall (divide_scalar projected_hessian (chi2_ppf prov (lvl / 100) 1))])"
    by (simp add: init_def Let_def)
  then show "\<exists>r. init cls prov s g H lvl fl mode =
         (Inr r, evs0 @ (if lvl < 1 then [UserWarning lvl] else [])
                   @ [EighCall (divide_scalar projected_hessian (chi2_ppf prov (lvl / 100) 1))])" ..
qed

theorem init_confidence_level_witness:
  "\<not> (0 < (100::real) \<and> (100::real) < 100) \<and>
   init ex_classes ex_providers ex_store 0 ex_hessian 100 ex_flags ''none'' = (Inl AssertionError, []) \<and>
   dot ex_hessian (get_nongauge_projector ex_classes (gateset_at ex_store 0) ex_flags) = Inr [[0, 0], [0, 16]] \<and>
   dot (get_nongauge_projector ex_classes (gateset_at ex_store 0) ex_flags) [[0, 0], [0, 16]]
     = Inr [[0, 0], [0, 16]] \<and>
   init ex_classes ex_providers ex_store 0 ex_hessian 100 ex_flags ''std'' = (Inl AssertionError, []) \<and>
   init ex_classes ex_providers ex_store 0 ex_hessian 100 ex_flags ''bogus''
     = (Inl (ValueError ''Invalid value of hessianProjection argument: bogus''), []) \<and>
   (0::real) < 1 / 2 \<and> (1 / 2 :: real) < 100 \<and>
   isclose (chi2_ppf ex_providers ((1 / 2) / 100) 1) ((- norm_ppf ex_providers ((1 - (1 / 2) / 100) / 2)) ^ 2) \<and>
   project_hessian ex_classes ex_providers ex_store 0 ex_hessian
      (matrix_rank ex_providers (get_nongauge_projector ex_classes (gateset_at ex_store 0) ex_flags)
         (P_RANK_TOL ex_providers))
      (int (length ex_hessian)
         - int (matrix_rank ex_providers (get_nongauge_projector ex_classes (gateset_at ex_store 0) ex_flags)
                  (P_RANK_TOL ex_providers)))
      ex_flags (1 / 2) ''std'' = (Inr [[0, 0], [0, 16]], []) \<and>
   eigh ex_providers (divide_scalar [[0, 0], [0, 16]] (chi2_ppf ex_providers ((1 / 2) / 100) 1))
     = Inr ([0, 4], [[1, 0], [0, 1]]) \<and>
   square (length [0, 4 :: real]) [[1, 0], [0, 1]] \<and>
   snd (init ex_classes ex_providers ex_store 0 ex_hessian (1 / 2) ex_flags ''std'')
     = [UserWarning (1 / 2), EighCall [[0, 0], [0, 4]]]"
proof -
  let ?P = "get_nongauge_projector ex_classes (gateset_at ex_store 0) ex_flags"
  have d1: "dot ex_hessian ?P = Inr [[0, 0], [0, 16]]"
    by (simp add: dot_def transpose_2x2 ex_hessian_def ex_classes_def)
  have d2: "dot ?P [[0, 0], [0, 16]] = Inr [[0, 0], [0, 16]]"
    by (simp add: dot_def transpose_2x2 ex_classes_def)
  have p: "project_hessian ex_classes ex_providers ex_store 0 ex_hessian
      (matrix_rank ex_providers ?P (P_RANK_TOL ex_providers))
      (int (length ex_hessian) - int (matrix_rank ex_providers ?P (P_RANK_TOL ex_providers)))
      ex_flags (1 / 2) ''std'' = (Inr [[0, 0], [0, 16]], [])"
    by (simp add: project_hessian_def d1 d2)
  have pb: "project_hessian ex_classes ex_providers ex_store 0 ex_hessian
      (matrix_rank ex_providers ?P (P_RANK_TOL ex_providers))
      (int (length ex_hessian) - int (matrix_rank ex_providers ?P (P_RANK_TOL ex_providers)))
      ex_flags 100 ''bogus''
      = (Inl (ValueError ''Invalid value of hessianProjection argument: bogus''), [])"
    by (simp add: project_hessian_def)
  have e: "eigh ex_providers (divide_scalar [[0, 0], [0, 16]] (chi2_ppf ex_providers ((1 / 2) / 100) 1))
     = Inr ([0, 4], [[1, 0], [0, 1]])"
    by (simp add: ex_providers_def divide_scalar_def upt_0_2)
  have c: "isclose (chi2_ppf ex_providers ((1 / 2) / 100) 1) ((- norm_ppf ex_providers ((1 - (1 / 2) / 100) / 2)) ^ 2)"
    by (simp add: ex_providers_def isclose_def)
  have sq: "square (length [0, 4 :: real]) [[1, 0], [0, 1]]" by (simp add: square_def)
  have d: "divide_scalar [[0, 0], [0, 16]] (chi2_ppf ex_providers ((1 / 2) / 100) 1) = [[0, 0], [0, 4]]"
    by (simp add: ex_providers_def divide_scalar_def)
  note a = init_confidence_level [of 100 ex_classes ex_providers ex_store 0 ex_hessian ex_flags "''bogus''"]
  note b = init_confidence_level [of "1 / 2" ex_classes ex_providers ex_store 0 ex_hessian ex_flags "''std''"
      "[[0, 0], [0, 16]]" "[]" "[0, 4]" "[[1, 0], [0, 1]]"]
  from a have n: "init ex_classes ex_providers ex_store 0 ex_hessian 100 ex_flags ''none'' = (Inl AssertionError, [])"
    by simp
  from a d1 d2 have st: "init ex_classes ex_providers ex_store 0 ex_hessian 100 ex_flags ''std'' = (Inl AssertionError, [])"
    by simp
  from a pb have bg: "init ex_classes ex_providers ex_store 0 ex_hessian 100 ex_flags ''bogus''
     = (Inl (ValueError ''Invalid value of hessianProjection argument: bogus''), [])"
    by simp
  from b p e c sq d
  have w: "snd (init ex_classes ex_providers ex_store 0 ex_hessian (1 / 2) ex_flags ''std'')
     = [UserWarning (1 / 2), EighCall [[0, 0], [0, 4]]]"
    by auto
  from n d1 d2 st bg c p e sq w show ?thesis by simp
qed

subsection \<open>The projection mode\<close>

text \<open>
  C5.  Whatever the other arguments are, a projection mode other than \<open>none\<close>, \<open>std\<close> and
  \<open>optimal gate CIs\<close> makes the constructor raise the ValueError of line 76 that names
  the mode, and no event has happened by then: in particular \<open>eigh\<close> has not been called.
\<close>

theorem init_invalid_projection:
  "hessianProjection \<notin> {''none'', ''std'', ''optimal gate CIs''} \<Longrightarrow>
   init cls prov s g H lvl fl hessianProjection =
     (Inl (ValueError (''Invalid value of hessianProjection argument: '' @ hessianProjection)), [])"
  by (simp add: init_def project_hessian_def Let_def)

theorem init_invalid_projection_witness:
  "''bogus'' \<notin> {''none'', ''std'', ''optimal gate CIs''} \<and>
   init ex_classes ex_providers ex_store 0 ex_hessian 95 ex_flags ''bogus'' =
     (Inl (ValueError ''Invalid value of hessianProjection argument: bogus''), [])"
  using init_invalid_projection [of "''bogus''" ex_classes ex_providers ex_store 0 ex_hessian 95 ex_flags]
  by simp

subsection \<open>Propagation\<close>

text \<open>The interval of a linear function of the gate set of the example.\<close>

lemma ex_gateset_fn:
  "get_gateset_fn_confidence_interval ex_classes ex_region ex_store ex_fnOfGateset (1 / 2) False
     = (Inr (Df (FloatArr [] [1])),
        put_gateset (snd (copy_gateset ex_store [1, 2])) 1 [1, 5 / 2],
        [[1, 2], [3 / 2, 2], [1, 5 / 2]])"
  by (simp add: get_gateset_fn_confidence_interval_def ex_region_def ex_flags_def ex_classes_def
      ex_store_def Let_def copy_gateset_def put_gateset_def ex_fnOfGateset_def zeros_grad_def
      set_grad_def upt_0_2 numeral_2_eq_2 compute_df_from_gradF_def halfwidth_def dot_mv_def dot_vv_def)

text \<open>
  C6.  When \<open>get_gate_fn_confidence_interval\<close> gets as far as line 262, every entry of
  \<open>gradF\<close> that is not zero lies in the block of the gate, the indices from its offset
  \<open>gpo\<close> up to \<open>gpo + nGateParams\<close>, and there is one only if \<open>gates\<close> is true or a list or
  tuple that contains the label: every entry outside of the block is zero.
\<close>

theorem gate_fn_gradient_block:
  assumes run: "gate_fn_gradF cls r s fnOfGate gateLabel eps = (Inr (gradF, f0), s1, lg)"
      and fl: "gateset_paramFlags r = (gates, G0, SPAM, SP0)"
  shows "\<exists>gpo gend g.
           gateset_offsets r gateLabel = Some (gpo, gend) \<and>
           get_gate cls (gateset_at s (gateset r)) gateLabel = Some g \<and>
           nparams_grad gradF = num_params cls (gateset_at s (gateset r)) (gates, G0, SPAM, SP0) \<and>
           (\<forall>p<nparams_grad gradF.
              \<not> zero_entry gradF p \<longrightarrow>
                gate_is_parameterized gates gateLabel \<and>
                gpo \<le> p \<and> p < gpo + gate_num_params cls g G0)"
proof -
  let ?gs = "gateset_at s (gateset r)"
  let ?n = "num_params cls ?gs (gates, G0, SPAM, SP0)"
  from run fl obtain gateMx g gpo gend where
    mx: "getitem cls ?gs gateLabel = Some gateMx" and g: "get_gate cls ?gs gateLabel = Some g"
    and off: "gateset_offsets r gateLabel = Some (gpo, gend)"
    by (auto simp: gate_fn_gradF_def Let_def split: option.splits prod.splits)
  obtain gateObj s0 where cp: "copy_gate s g = (gateObj, s0)" by (cases "copy_gate s g")
  have g0: "gate_at s0 gateObj = g" using cp by (auto simp: copy_gate_def)
  have n: "nparams_grad gradF = ?n"
    and z: "\<forall>p. gate_is_parameterized gates gateLabel \<and> p \<in> (\<lambda>i. gpo + i) ` set [0..<gate_num_params cls g G0]
              \<or> zero_entry gradF p = zero_entry (zeros_grad ?n (fnOfGate gateMx)) p"
  proof -
    have "nparams_grad gradF = ?n \<and>
          (\<forall>p. gate_is_parameterized gates gateLabel \<and> p \<in> (\<lambda>i. gpo + i) ` set [0..<gate_num_params cls g G0]
              \<or> zero_entry gradF p = zero_entry (zeros_grad ?n (fnOfGate gateMx)) p)"
    proof (cases "gate_is_parameterized gates gateLabel")
      case False
      with run fl mx g off cp have "gradF = zeros_grad ?n (fnOfGate gateMx)"
        by (auto simp: gate_fn_gradF_def Let_def)
      then show ?thesis by simp
    next
      case True
      with run fl mx g off cp g0 obtain s2 where
        "gate_loop cls fnOfGate G0 eps gateObj (gate_to_vector cls g G0) gpo (fnOfGate gateMx)
           [0..<gate_num_params cls g G0] (zeros_grad ?n (fnOfGate gateMx)) s0 [gateMx]
         = (Inr gradF, s2, lg)"
        by (auto simp: gate_fn_gradF_def Let_def split: prod.splits sum.splits)
      from gate_loop_Inr[OF this] True show ?thesis by auto
    qed
    then show "nparams_grad gradF = ?n"
      and "\<forall>p. gate_is_parameterized gates gateLabel \<and> p \<in> (\<lambda>i. gpo + i) ` set [0..<gate_num_params cls g G0]
              \<or> zero_entry gradF p = zero_entry (zeros_grad ?n (fnOfGate gateMx)) p"
      by blast+
  qed
  have "gate_is_parameterized gates gateLabel \<and> gpo \<le> p \<and> p < gpo + gate_num_params cls g G0"
    if p: "p < nparams_grad gradF" and nz: "\<not> zero_entry gradF p" for p
  proof -
    from p n have "zero_entry (zeros_grad ?n (fnOfGate gateMx)) p" by (simp add: zero_entry_zeros)
    with z nz have "gate_is_parameterized gates gateLabel"
      and "p \<in> (\<lambda>i. gpo + i) ` set [0..<gate_num_params cls g G0]" by blast+
    then show ?thesis by auto
  qed
  with off g n show ?thesis by blast
qed

theorem gate_fn_gradient_block_witness:
  "gate_fn_gradF ex_classes ex_region ex_store ex_fnOfGate ''Gx'' (1 / 2)
     = (Inr (GradFloat [1, 0], PyFloat 1), put_gate (snd (copy_gate ex_store [1])) 0 [3 / 2],
        [[[1]], [[3 / 2]]]) \<and>
   gateset_paramFlags ex_region = (GatesBool True, True, True, True) \<and>
   gateset_offsets ex_region ''Gx'' = Some (0, 1) \<and>
   \<not> (0 \<le> (1::nat) \<and> (1::nat) < 0 + gate_num_params ex_classes [1] True) \<and>
   zero_entry (GradFloat [1, 0]) 1"
proof -
  have fl: "gateset_paramFlags ex_region = (GatesBool True, True, True, True)"
    by (simp add: ex_region_def ex_flags_def)
  have off: "gateset_offsets ex_region ''Gx'' = Some (0, 1)"
    by (simp add: ex_region_def)
  have g: "get_gate ex_classes (gateset_at ex_store (gateset ex_region)) ''Gx'' = Some [1]"
    by (simp add: ex_classes_def ex_store_def)
  have n: "\<not> (0 \<le> (1::nat) \<and> (1::nat) < 0 + gate_num_params ex_classes [1] True)"
    by (simp add: ex_classes_def)
  have p: "(1::nat) < nparams_grad (GradFloat [1, 0])"
    by (simp add: nparams_grad_def)
  from gate_fn_gradient_block [OF ex_gate_fn_gradF fl] off g n p have "zero_entry (GradFloat [1, 0]) 1"
    by fastforce
  with ex_gate_fn_gradF fl off n show ?thesis by blast
qed

text \<open>
  C7.  Whatever the three methods return or raise, every gate set and gate that existed
  before the call has its state afterwards, the gate set of the region among them:
  the store differs only by the copies that the call has made.
\<close>

theorem propagation_preserves_estimate:
  assumes "gateset r < next_gateset s"
  shows "(let s1 = fst (snd (get_gate_fn_confidence_interval cls r s fnOfGate gateLabel eps returnFnVal))
          in preserves s s1 \<and> gateset_at s1 (gateset r) = gateset_at s (gateset r)) \<and>
         (let s1 = fst (snd (get_gateset_fn_confidence_interval cls r s fnOfGateset eps returnFnVal))
          in preserves s s1 \<and> gateset_at s1 (gateset r) = gateset_at s (gateset r)) \<and>
         (let s1 = fst (snd (get_spam_fn_confidence_interval cls r s fnOfSpamVecs eps returnFnVal))
          in preserves s s1 \<and> gateset_at s1 (gateset r) = gateset_at s (gateset r))"
proof -
  have stored: "gateset_at s1 (gateset r) = gateset_at s (gateset r)" if "preserves s s1" for s1
    using that assms by (simp add: preserves_def)
  have 1: "preserves s (fst (snd (get_gate_fn_confidence_interval cls r s fnOfGate gateLabel eps returnFnVal)))"
  proof -
    obtain gates G0 SPAM SP0 where fl: "gateset_paramFlags r = (gates, G0, SPAM, SP0)"
      by (cases "gateset_paramFlags r") auto
    have "preserves s (fst (snd (gate_fn_gradF cls r s fnOfGate gateLabel eps)))"
    proof (cases "getitem cls (gateset_at s (gateset r)) gateLabel")
      case None
      with fl show ?thesis by (simp add: gate_fn_gradF_def Let_def)
    next
      case mx: (Some gateMx)
      show ?thesis
      proof (cases "get_gate cls (gateset_at s (gateset r)) gateLabel")
        case None
        with fl mx show ?thesis by (simp add: gate_fn_gradF_def Let_def)
      next
        case g: (Some g)
        obtain gateObj s0 where cp: "copy_gate s g = (gateObj, s0)" by (cases "copy_gate s g")
        from preserves_copy_gate[OF preserves_refl cp] have p0: "preserves s s0" and a: "next_gate s \<le> gateObj"
          by auto
        show ?thesis
        proof (cases "gateset_offsets r gateLabel")
          case None
          with fl mx g cp p0 show ?thesis by (simp add: gate_fn_gradF_def Let_def)
        next
          case (Some oe)
          obtain gpo gend where oe: "oe = (gpo, gend)" by (cases oe)
          let ?l = "gate_loop cls fnOfGate G0 eps gateObj (gate_to_vector cls (gate_at s0 gateObj) G0) gpo
                      (fnOfGate gateMx) [0..<gate_num_params cls (gate_at s0 gateObj) G0]
                      (zeros_grad (num_params cls (gateset_at s (gateset r)) (gates, G0, SPAM, SP0))
                         (fnOfGate gateMx)) s0 [gateMx]"
          obtain res s2 lg2 where l: "?l = (res, s2, lg2)" by (cases ?l)
          from gate_loop_preserves[OF p0 a, of cls fnOfGate G0 eps "gate_to_vector cls (gate_at s0 gateObj) G0"
              gpo "fnOfGate gateMx" "[0..<gate_num_params cls (gate_at s0 gateObj) G0]"
              "zeros_grad (num_params cls (gateset_at s (gateset r)) (gates, G0, SPAM, SP0)) (fnOfGate gateMx)"
              "[gateMx]"] l
          have p2: "preserves s s2" by simp
          from fl mx g cp p0 Some oe l p2 show ?thesis
            by (cases res) (simp_all add: gate_fn_gradF_def Let_def)
        qed
      qed
    qed
    then show ?thesis
      by (auto simp: get_gate_fn_confidence_interval_def split: prod.splits sum.splits)
  qed
  have 2: "preserves s (fst (snd (get_gateset_fn_confidence_interval cls r s fnOfGateset eps returnFnVal)))"
  proof -
    obtain gsObj s0 where cp: "copy_gateset s (gateset_at s (gateset r)) = (gsObj, s0)"
      by (cases "copy_gateset s (gateset_at s (gateset r))")
    from preserves_copy_gateset[OF preserves_refl cp] have p0: "preserves s s0" and a: "next_gateset s \<le> gsObj"
      by auto
    let ?fl = "gateset_paramFlags r"
    let ?n = "num_params cls (gateset_at s (gateset r)) ?fl"
    let ?l = "gateset_loop cls fnOfGateset ?fl eps gsObj (to_vector cls (gateset_at s0 gsObj) ?fl)
                (fnOfGateset (gateset_at s0 gsObj)) [0..<?n]
                (zeros_grad ?n (fnOfGateset (gateset_at s0 gsObj))) s0 [gateset_at s0 gsObj]"
    obtain res s2 lg2 where l: "?l = (res, s2, lg2)" by (cases ?l)
    from gateset_loop_preserves[OF p0 a, of cls fnOfGateset ?fl eps "to_vector cls (gateset_at s0 gsObj) ?fl"
        "fnOfGateset (gateset_at s0 gsObj)" "[0..<?n]" "zeros_grad ?n (fnOfGateset (gateset_at s0 gsObj))"
        "[gateset_at s0 gsObj]"] l
    have p2: "preserves s s2" by simp
    from cp p0 l p2 show ?thesis
      by (cases res) (simp_all add: get_gateset_fn_confidence_interval_def Let_def)
  qed
  have 3: "preserves s (fst (snd (get_spam_fn_confidence_interval cls r s fnOfSpamVecs eps returnFnVal)))"
  proof -
    obtain gates G0 SPAM SP0 where fl: "gateset_paramFlags r = (gates, G0, SPAM, SP0)"
      by (cases "gateset_paramFlags r") auto
    obtain gsEps s0 where cp: "copy_gateset s (gateset_at s (gateset r)) = (gsEps, s0)"
      by (cases "copy_gateset s (gateset_at s (gateset r))")
    from preserves_copy_gateset[OF preserves_refl cp] have p0: "preserves s s0" and a: "next_gateset s \<le> gsEps"
      by auto
    show ?thesis
    proof (cases SPAM)
      case False
      with fl show ?thesis by (simp add: get_spam_fn_confidence_interval_def Let_def)
    next
      case True
      let ?f0 = "fnOfSpamVecs (get_rhovecs cls (gateset_at s (gateset r))) (get_evecs cls (gateset_at s (gateset r)))"
      let ?n = "num_params cls (gateset_at s (gateset r)) (gates, G0, SPAM, SP0)"
      let ?l1 = "spam_loop cls r fnOfSpamVecs (set_rhovec cls) ''rho'' (\<not> SP0) eps gsEps ?f0
                  (enumerate 0 (rhoVecs cls (gateset_at s0 (gateset r)))) (zeros_grad ?n ?f0) s0
                  [(get_rhovecs cls (gateset_at s (gateset r)), get_evecs cls (gateset_at s (gateset r)))]"
      obtain res1 s1 lg1 where l1: "?l1 = (res1, s1, lg1)" by (cases ?l1)
      from spam_loop_preserves[OF p0 a, of cls r fnOfSpamVecs "set_rhovec cls" "''rho''" "\<not> SP0" eps ?f0
          "enumerate 0 (rhoVecs cls (gateset_at s0 (gateset r)))" "zeros_grad ?n ?f0"
          "[(get_rhovecs cls (gateset_at s (gateset r)), get_evecs cls (gateset_at s (gateset r)))]"] l1
      have p1: "preserves s s1" by simp
      show ?thesis
      proof (cases res1)
        case (Inl e)
        with fl True cp l1 p1 show ?thesis
          by (simp add: get_spam_fn_confidence_interval_def Let_def)
      next
        case (Inr g1)
        let ?l2 = "spam_loop cls r fnOfSpamVecs (set_evec cls) ''E'' False eps gsEps ?f0
                  (enumerate 0 (EVecs cls (gateset_at s1 (gateset r)))) g1 s1 lg1"
        obtain res2 s2 lg2 where l2: "?l2 = (res2, s2, lg2)" by (cases ?l2)
        from spam_loop_preserves[OF p1 a, of cls r fnOfSpamVecs "set_evec cls" "''E''" False eps ?f0
          "enumerate 0 (EVecs cls (gateset_at s1 (gateset r)))" g1 lg1] l2
        have p2: "preserves s s2" by simp
        from fl True cp l1 Inr l2 p2 show ?thesis
          by (cases res2) (simp_all add: get_spam_fn_confidence_interval_def Let_def)
      qed
    qed
  qed
  from 1 2 3 stored[OF 1] stored[OF 2] stored[OF 3] show ?thesis by (simp add: Let_def)
qed

theorem propagation_preserves_estimate_witness:
  "gateset ex_region < next_gateset ex_store \<and>
   get_gateset_fn_confidence_interval ex_classes ex_region ex_store ex_fnOfGateset (1 / 2) False
     = (Inr (Df (FloatArr [] [1])),
        put_gateset (snd (copy_gateset ex_store [1, 2])) 1 [1, 5 / 2],
        [[1, 2], [3 / 2, 2], [1, 5 / 2]]) \<and>
   gateset_at (put_gateset (snd (copy_gateset ex_store [1, 2])) 1 [1, 5 / 2]) 1 = [1, 5 / 2] \<and>
   gateset_at (put_gateset (snd (copy_gateset ex_store [1, 2])) 1 [1, 5 / 2]) 0 = [1, 2] \<and>
   gateset_at (fst (snd (get_gate_fn_confidence_interval ex_classes ex_region ex_store
        ex_fnOfGate ''Gx'' (1 / 2) False))) 0 = [1, 2] \<and>
   gateset_at (fst (snd (get_spam_fn_confidence_interval ex_classes ex_region ex_store
        ex_fnOfSpamVecs (1 / 2) False))) 0 = [1, 2]"
proof -
  have h: "gateset ex_region < next_gateset ex_store"
    by (simp add: ex_region_def ex_store_def)
  have g: "gateset ex_region = 0" by (simp add: ex_region_def)
  have s: "gateset_at ex_store 0 = [1, 2]" by (simp add: ex_store_def)
  have c: "gateset_at (put_gateset (snd (copy_gateset ex_store [1, 2])) 1 [1, 5 / 2]) 1 = [1, 5 / 2]"
    by (simp add: put_gateset_def)
  from propagation_preserves_estimate [OF h, of ex_classes ex_fnOfGate "''Gx''" "1 / 2" False
      ex_fnOfGateset ex_fnOfSpamVecs] h g s c ex_gateset_fn
  show ?thesis by (simp add: Let_def)
qed

text \<open>
  C8.  For an array \<open>f0\<close> and a \<open>gradF\<close> as the callers allocate it: with more than two
  dimensions \<open>_compute_df_from_gradF\<close> raises the ValueError that names their number; with
  at most two, and an inverse form that is square of the size of \<open>gradF\<close>, it returns a
  \<open>df\<close> of the shape of \<open>f0\<close> whose element \<open>e\<close> is the half-width of the spec for the
  gradient \<open>gradF[:, e]\<close> of the element \<open>e\<close> alone: \<open>sqrt(|g\<^sup>T invQ g|)\<close> for real values, and
  for complex values that of the real parts plus \<open>i\<close> times that of the imaginary parts.
\<close>

theorem compute_df_dimensions:
  assumes kind: "kind_ok f0 gradF" and shape: "array_shape f0 = Some shape"
  shows "(2 < length shape \<longrightarrow>
            compute_df_from_gradF r gradF f0 returnFnVal =
              Inl (ValueError (''Unsupported number of dimensions returned by fnOfGate or fnOfGateset: ''
                               @ str_nat (length shape)))) \<and>
         (length shape \<le> 2 \<and> square (nparams_grad gradF) (invRegionQuadcForm r) \<longrightarrow>
            (\<exists>df. compute_df_from_gradF r gradF f0 returnFnVal
                     = Inr (if returnFnVal then DfF0 df f0 else Df df) \<and>
               (\<forall>rows. gradF = GradReal rows \<longrightarrow>
                  (\<exists>ds. df = FloatArr shape ds \<and> length ds = prod_list shape \<and>
                     (\<forall>e<prod_list shape.
                        ds ! e = spec_halfwidth (invRegionQuadcForm r) (map (\<lambda>row. row ! e) rows)))) \<and>
               (\<forall>rows. gradF = GradComplex rows \<longrightarrow>
                  (\<exists>ds. df = ComplexArr shape ds \<and> length ds = prod_list shape \<and>
                     (\<forall>e<prod_list shape.
                        ds ! e = spec_halfwidth_complex (invRegionQuadcForm r)
                                   (map (\<lambda>row. row ! e) rows))))))"
proof (cases f0)
  case (PyFloat y)
  with shape show ?thesis by (simp add: array_shape_def)
next
  case (FloatArr sh d)
  with shape have f0eq: "f0 = FloatArr shape d" by (simp add: array_shape_def)
  from kind f0eq obtain rows where g: "gradF = GradReal rows"
    and wf: "list_all (\<lambda>row. length row = prod_list shape) rows"
    by (cases gradF) (simp_all add: kind_ok_def)
  let ?hw = "\<lambda>e. bind (rolled rows e) (halfwidth (invRegionQuadcForm r))"
  let ?f = "\<lambda>e. spec_halfwidth (invRegionQuadcForm r) (map (\<lambda>row. row ! e) rows)"
  have c: "compute_df_from_gradF r gradF f0 returnFnVal =
        bind (bind (df_elements ?hw shape) (\<lambda>ds. Inr (FloatArr shape ds)))
          (\<lambda>df. Inr (if returnFnVal then DfF0 df f0 else Df df))"
    unfolding f0eq g compute_df_from_gradF_def by simp
  have 1: "2 < length shape \<longrightarrow> compute_df_from_gradF r gradF f0 returnFnVal =
              Inl (ValueError (''Unsupported number of dimensions returned by fnOfGate or fnOfGateset: ''
                               @ str_nat (length shape)))"
    by (simp add: c df_elements_unsupported)
  have 2: "compute_df_from_gradF r gradF f0 returnFnVal
             = Inr (if returnFnVal then DfF0 (FloatArr shape (map ?f [0..<prod_list shape])) f0
                    else Df (FloatArr shape (map ?f [0..<prod_list shape])))"
    if le: "length shape \<le> 2" and sq: "square (nparams_grad gradF) (invRegionQuadcForm r)"
  proof -
    have "?hw e = Inr (?f e)" if "e < prod_list shape" for e
      using rolled_ok[OF wf that] halfwidth_spec[OF sq, of "map (\<lambda>row. row ! e) rows"]
      by (simp add: g nparams_grad_def)
    then have "df_elements ?hw shape = Inr (map ?f [0..<prod_list shape])"
      by (intro df_elements_eq[OF le]) simp
    then show ?thesis by (simp add: c)
  qed
  show ?thesis
  proof (intro conjI impI)
    show "2 < length shape \<Longrightarrow> compute_df_from_gradF r gradF f0 returnFnVal =
              Inl (ValueError (''Unsupported number of dimensions returned by fnOfGate or fnOfGateset: ''
                               @ str_nat (length shape)))"
      using 1 by simp
  next
    assume a: "length shape \<le> 2 \<and> square (nparams_grad gradF) (invRegionQuadcForm r)"
    show "\<exists>df. compute_df_from_gradF r gradF f0 returnFnVal
                     = Inr (if returnFnVal then DfF0 df f0 else Df df) \<and>
               (\<forall>rows. gradF = GradReal rows \<longrightarrow>
                  (\<exists>ds. df = FloatArr shape ds \<and> length ds = prod_list shape \<and>
                     (\<forall>e<prod_list shape.
                        ds ! e = spec_halfwidth (invRegionQuadcForm r) (map (\<lambda>row. row ! e) rows)))) \<and>
               (\<forall>rows. gradF = GradComplex rows \<longrightarrow>
                  (\<exists>ds. df = ComplexArr shape ds \<and> length ds = prod_list shape \<and>
                     (\<forall>e<prod_list shape.
                        ds ! e = spec_halfwidth_complex (invRegionQuadcForm r)
                                   (map (\<lambda>row. row ! e) rows))))"
      by (rule exI[of _ "FloatArr shape (map ?f [0..<prod_list shape])"])
         (use a 2 g in auto)
  qed
next
  case (ComplexArr sh d)
  with shape have f0eq: "f0 = ComplexArr shape d" by (simp add: array_shape_def)
  from kind f0eq obtain rows where g: "gradF = GradComplex rows"
    and wf: "list_all (\<lambda>row. length row = prod_list shape) rows"
    by (cases gradF) (simp_all add: kind_ok_def)
  let ?hw = "\<lambda>e. bind (rolled rows e) (halfwidth_complex (invRegionQuadcForm r))"
  let ?f = "\<lambda>e. spec_halfwidth_complex (invRegionQuadcForm r) (map (\<lambda>row. row ! e) rows)"
  have c: "compute_df_from_gradF r gradF f0 returnFnVal =
        bind (bind (df_elements ?hw shape) (\<lambda>ds. Inr (ComplexArr shape ds)))
          (\<lambda>df. Inr (if returnFnVal then DfF0 df f0 else Df df))"
    unfolding f0eq g compute_df_from_gradF_def by simp
  have 1: "2 < length shape \<longrightarrow> compute_df_from_gradF r gradF f0 returnFnVal =
              Inl (ValueError (''Unsupported number of dimensions returned by fnOfGate or fnOfGateset: ''
                               @ str_nat (length shape)))"
    by (simp add: c df_elements_unsupported)
  have 2: "compute_df_from_gradF r gradF f0 returnFnVal
             = Inr (if returnFnVal then DfF0 (ComplexArr shape (map ?f [0..<prod_list shape])) f0
                    else Df (ComplexArr shape (map ?f [0..<prod_list shape])))"
    if le: "length shape \<le> 2" and sq: "square (nparams_grad gradF) (invRegionQuadcForm r)"
  proof -
    have "?hw e = Inr (?f e)" if "e < prod_list shape" for e
      using rolled_ok[OF wf that] halfwidth_complex_spec[OF sq, of "map (\<lambda>row. row ! e) rows"]
      by (simp add: g nparams_grad_def)
    then have "df_elements ?hw shape = Inr (map ?f [0..<prod_list shape])"
      by (intro df_elements_eq[OF le]) simp
    then show ?thesis by (simp add: c)
  qed
  show ?thesis
  proof (intro conjI impI)
    show "2 < length shape \<Longrightarrow> compute_df_from_gradF r gradF f0 returnFnVal =
              Inl (ValueError (''Unsupported number of dimensions returned by fnOfGate or fnOfGateset: ''
                               @ str_nat (length shape)))"
      using 1 by simp
  next
    assume a: "length shape \<le> 2 \<and> square (nparams_grad gradF) (invRegionQuadcForm r)"
    show "\<exists>df. compute_df_from_gradF r gradF f0 returnFnVal
                     = Inr (if returnFnVal then DfF0 df f0 else Df df) \<and>
               (\<forall>rows. gradF = GradReal rows \<longrightarrow>
                  (\<exists>ds. df = FloatArr shape ds \<and> length ds = prod_list shape \<and>
                     (\<forall>e<prod_list shape.
                        ds ! e = spec_halfwidth (invRegionQuadcForm r) (map (\<lambda>row. row ! e) rows)))) \<and>
               (\<forall>rows. gradF = GradComplex rows \<longrightarrow>
                  (\<exists>ds. df = ComplexArr shape ds \<and> length ds = prod_list shape \<and>
                     (\<forall>e<prod_list shape.
                        ds ! e = spec_halfwidth_complex (invRegionQuadcForm r)
                                   (map (\<lambda>row. row ! e) rows))))"
      by (rule exI[of _ "ComplexArr shape (map ?f [0..<prod_list shape])"])
         (use a 2 g in auto)
  qed
qed

theorem compute_df_dimensions_witness:
  "kind_ok (FloatArr [1, 1, 1] [5]) (GradReal [[0], [2]]) \<and>
   array_shape (FloatArr [1, 1, 1] [5]) = Some [1, 1, 1] \<and>
   2 < length [1, 1, 1 :: nat] \<and>
   compute_df_from_gradF ex_region (GradReal [[0], [2]]) (FloatArr [1, 1, 1] [5]) False
     = Inl (ValueError ''Unsupported number of dimensions returned by fnOfGate or fnOfGateset: 3'') \<and>
   kind_ok (FloatArr [2] [5, 7]) (GradReal [[0, 0], [1, 2]]) \<and>
   array_shape (FloatArr [2] [5, 7]) = Some [2] \<and>
   length [2 :: nat] \<le> 2 \<and>
   square (nparams_grad (GradReal [[0, 0], [1, 2]])) (invRegionQuadcForm ex_region) \<and>
   compute_df_from_gradF ex_region (GradReal [[0, 0], [1, 2]]) (FloatArr [2] [5, 7]) False
     = Inr (Df (FloatArr [2] [1 / 2, 1])) \<and>
   spec_halfwidth (invRegionQuadcForm ex_region) [0, 2] = 1 \<and>
   kind_ok (ComplexArr [1, 2] [Complex 1 1, Complex 3 0])
     (GradComplex [[0, 0], [Complex 2 0, Complex 0 4]]) \<and>
   array_shape (ComplexArr [1, 2] [Complex 1 1, Complex 3 0]) = Some [1, 2] \<and>
   length [1, 2 :: nat] \<le> 2 \<and>
   square (nparams_grad (GradComplex [[0, 0], [Complex 2 0, Complex 0 4]])) (invRegionQuadcForm ex_region) \<and>
   compute_df_from_gradF ex_region (GradComplex [[0, 0], [Complex 2 0, Complex 0 4]])
       (ComplexArr [1, 2] [Complex 1 1, Complex 3 0]) True
     = Inr (DfF0 (ComplexArr [1, 2] [Complex 1 0, Complex 0 2])
                 (ComplexArr [1, 2] [Complex 1 1, Complex 3 0])) \<and>
   spec_halfwidth_complex (invRegionQuadcForm ex_region) [0, Complex 0 4] = Complex 0 2"
proof -
  have k1: "kind_ok (FloatArr [1, 1, 1] [5]) (GradReal [[0], [2]])" by (simp add: kind_ok_def)
  have a1: "array_shape (FloatArr [1, 1, 1] [5]) = Some [1, 1, 1]" by (simp add: array_shape_def)
  have k2: "kind_ok (FloatArr [2] [5, 7]) (GradReal [[0, 0], [1, 2]])" by (simp add: kind_ok_def)
  have a2: "array_shape (FloatArr [2] [5, 7]) = Some [2]" by (simp add: array_shape_def)
  have s2: "square (nparams_grad (GradReal [[0, 0], [1, 2]])) (invRegionQuadcForm ex_region)"
    by (simp add: square_def nparams_grad_def ex_region_def)
  have k3: "kind_ok (ComplexArr [1, 2] [Complex 1 1, Complex 3 0])
     (GradComplex [[0, 0], [Complex 2 0, Complex 0 4]])" by (simp add: kind_ok_def)
  have a3: "array_shape (ComplexArr [1, 2] [Complex 1 1, Complex 3 0]) = Some [1, 2]"
    by (simp add: array_shape_def)
  have s3: "square (nparams_grad (GradComplex [[0, 0], [Complex 2 0, Complex 0 4]])) (invRegionQuadcForm ex_region)"
    by (simp add: square_def nparams_grad_def ex_region_def)
  from compute_df_dimensions [OF k1 a1, of ex_region False]
  have e: "compute_df_from_gradF ex_region (GradReal [[0], [2]]) (FloatArr [1, 1, 1] [5]) False
     = Inl (ValueError ''Unsupported number of dimensions returned by fnOfGate or fnOfGateset: 3'')"
    by (simp add: str_nat_3)
  from compute_df_dimensions [OF k2 a2, of ex_region False] s2 ex_compute_real
  have "\<forall>e<prod_list [2]. [1 / 2, 1] ! e
          = spec_halfwidth (invRegionQuadcForm ex_region) (map (\<lambda>row. row ! e) [[0, 0], [1, 2]])"
    by auto
  then have h2: "spec_halfwidth (invRegionQuadcForm ex_region) [0, 2] = 1"
    by (auto dest: spec[of _ 1])
  from compute_df_dimensions [OF k3 a3, of ex_region True] s3 ex_compute_complex
  have "\<forall>e<prod_list [1, 2]. [Complex 1 0, Complex 0 2] ! e
          = spec_halfwidth_complex (invRegionQuadcForm ex_region)
              (map (\<lambda>row. row ! e) [[0, 0], [Complex 2 0, Complex 0 4]])"
    by auto
  then have h3: "spec_halfwidth_complex (invRegionQuadcForm ex_region) [0, Complex 0 4] = Complex 0 2"
    by (auto dest: spec[of _ 1])
  from k1 a1 e k2 a2 s2 ex_compute_real h2 k3 a3 s3 ex_compute_complex h3 show ?thesis by simp
qed



end
